theory Spec2Isabelle
  imports Complex_Main
begin

section \<open>Track unit: the machine of trackMachine.ts\<close>

text \<open>
  The track machine is a parallel state machine with two regions, \<open>audioSource\<close>
  (html, loadingWebAudio, webaudio) and \<open>playback\<close> (paused, playing), over a mutable
  context. A snapshot of the machine is the record \<open>track\<close>: the two region states and
  the context fields of \<open>TrackContext\<close> under their own names.

  JavaScript numbers are modelled as reals: NaN and the infinities are outside the model.
  A nullable handle is an option. The Web Audio and HTML5 objects the machine drives are
  modelled by what the machine writes to them and reads from them:
  \<^item> the \<open>HTMLAudioElement\<close> is the record \<open>audio_element\<close>;
  \<^item> the gain node is its gain value;
  \<^item> a decoded \<open>AudioBuffer\<close> is its duration;
  \<^item> every \<open>AudioBufferSourceNode\<close> the track creates is an entry of \<open>nodes\<close>, the
    list of the method calls made on it, in order; the handle \<open>bufferSourceNode\<close> is an
    index into that list;
  \<^item> \<open>audioContext.currentTime\<close>, the clock of the audio context, is the parameter
    \<open>now\<close> of every transition.
  Calls that leave the machine (the fetch, the console, the callbacks given by the queue)
  are appended to \<open>effects\<close>; events the machine sends to itself are appended to
  \<open>mailbox\<close> and processed after the current event. The code is taken to run in a
  browser with Web Audio: \<open>isBrowser\<close> is true and the \<open>audioContext\<close> of the
  module is not null. The fields \<open>skipHEAD\<close>, \<open>metadata\<close> and
  \<open>loadedHEAD\<close> are never read by the machine and are left out.
\<close>

datatype audio_buffer = AudioBuffer (buffer_duration: real)

datatype track_event =
    T_ACTIVATE
  | T_DEACTIVATE
  | T_PLAY
  | T_PAUSE
  | T_ENDED
  | T_SEEK real
  | T_SET_VOLUME real
  | T_PRELOAD
  | T_LOAD_WEBAUDIO
  | T_WEBAUDIO_LOADED audio_buffer
  | T_WEBAUDIO_ERROR string
  | T_SWITCH_TO_WEBAUDIO
  | T_PROGRESS

datatype audio_source = Html | LoadingWebAudio | Webaudio

datatype playback = Paused | Playing

datatype node_op = SetBuffer | Connect | SetOnended | ClearOnended | Start real | Stop | Disconnect

datatype loading_state = NONE | LOADING | LOADED

datatype track_info = GaplessTrackInfo
  (info_idx: int) (info_currentTime: real) (info_duration: real)
  (info_isPlaying: bool) (info_isPaused: bool) (info_volume: real) (info_trackUrl: string)
  (info_isWebAudio: bool) (info_webAudioLoadingState: loading_state)

datatype track_effect =
    Fetch string
  | ConsoleError string
  | CallOnTrackLoaded int
  | CallOnTrackEnded int
  | CallOnEnded
  | CallOnProgress track_info

record audio_element =
  a_volume :: real
  a_preloadAuto :: bool
  a_src :: string
  a_paused :: bool
  a_currentTime :: real
  a_duration :: real

record track =
  ref :: nat
  audioSource :: audio_source
  playback :: playback
  trackUrl :: string
  idx :: int
  volume :: real
  webAudioIsDisabled :: bool
  onProgress :: bool
  onEnded :: bool
  onTrackLoaded :: bool
  onTrackEnded :: bool
  currentTime :: real
  duration :: real
  audio :: "audio_element option"
  audioContext :: bool
  audioBuffer :: "audio_buffer option"
  bufferSourceNode :: "nat option"
  gainNode :: "real option"
  webAudioStartedPlayingAt :: real
  webAudioPausedDuration :: real
  webAudioPausedAt :: real
  progressAnimationFrame :: bool
  nodes :: "node_op list list"
  effects :: "track_effect list"
  mailbox :: "track_event list"

text \<open>\<open>new Audio()\<close> as both \<open>createAudioElement\<close> actions configure it.\<close>

definition newAudio :: "track \<Rightarrow> audio_element" where
  "newAudio t =
     \<lparr>a_volume = volume t, a_preloadAuto = False, a_src = trackUrl t,
      a_paused = True, a_currentTime = 0, a_duration = 0\<rparr>"

text \<open>
  The three statements every teardown of a buffer source runs inside its \<open>try\<close>:
  \<open>onended = null; stop(); disconnect()\<close>.
\<close>

definition stopNode :: "nat \<Rightarrow> track \<Rightarrow> track" where
  "stopNode n t = t\<lparr>nodes := (nodes t)[n := nodes t ! n @ [ClearOnended, Stop, Disconnect]]\<rparr>"

definition createAndStartBufferSource :: "real \<Rightarrow> real \<Rightarrow> track \<Rightarrow> track" where
  "createAndStartBufferSource now startTime t =
     (if \<not> audioContext t \<or> audioBuffer t = None then t
      else
        let g = (case gainNode t of None \<Rightarrow> volume t | Some g \<Rightarrow> g);
            position = max 0 startTime
        in t\<lparr>gainNode := Some g,
             bufferSourceNode := Some (length (nodes t)),
             nodes := nodes t @ [[SetBuffer, Connect, SetOnended, Start position]],
             webAudioStartedPlayingAt := now - position,
             webAudioPausedDuration := 0,
             webAudioPausedAt := 0\<rparr>)"

subsection \<open>Actions\<close>

definition destroyAudioElement :: "track \<Rightarrow> track" where
  "destroyAudioElement t =
     (let t1 = (case bufferSourceNode t of None \<Rightarrow> t | Some n \<Rightarrow> stopNode n t)
      in t1\<lparr>audio := None, bufferSourceNode := None, progressAnimationFrame := False\<rparr>)"

definition startPlayback :: "track \<Rightarrow> track" where
  "startPlayback t =
     (if audioBuffer t \<noteq> None \<and> \<not> webAudioIsDisabled t
      then t\<lparr>mailbox := mailbox t @ [T_SWITCH_TO_WEBAUDIO]\<rparr>
      else case audio t of
        None \<Rightarrow> t
      | Some a \<Rightarrow>
          let t1 = t\<lparr>audio := Some (a\<lparr>a_preloadAuto := True, a_paused := False\<rparr>)\<rparr>
          in if \<not> webAudioIsDisabled t
             then t1\<lparr>mailbox := mailbox t1 @ [T_LOAD_WEBAUDIO]\<rparr>
             else t1)"

definition createAudioElementIfNeeded :: "track \<Rightarrow> track" where
  "createAudioElementIfNeeded t =
     t\<lparr>audio := (case audio t of None \<Rightarrow> Some (newAudio t) | Some a \<Rightarrow> Some a),
       gainNode := (if gainNode t = None \<and> audioContext t then Some (volume t) else gainNode t)\<rparr>"

definition resumeWebAudio :: "real \<Rightarrow> track \<Rightarrow> track" where
  "resumeWebAudio now t = createAndStartBufferSource now (max 0 (currentTime t)) t"

definition pausePlayback :: "real \<Rightarrow> track \<Rightarrow> track" where
  "pausePlayback now t =
     (case bufferSourceNode t of
        Some n \<Rightarrow>
          if audioContext t
          then (stopNode n
                  (t\<lparr>currentTime := max 0 (now - webAudioStartedPlayingAt t),
                     webAudioPausedAt := now\<rparr>))\<lparr>bufferSourceNode := None\<rparr>
          else (case audio t of None \<Rightarrow> t | Some a \<Rightarrow> t\<lparr>audio := Some (a\<lparr>a_paused := True\<rparr>)\<rparr>)
      | None \<Rightarrow>
          (case audio t of None \<Rightarrow> t | Some a \<Rightarrow> t\<lparr>audio := Some (a\<lparr>a_paused := True\<rparr>)\<rparr>))"

definition startProgressTracking :: "track \<Rightarrow> track" where
  "startProgressTracking t = t\<lparr>progressAnimationFrame := True\<rparr>"

definition stopProgressTracking :: "track \<Rightarrow> track" where
  "stopProgressTracking t = t\<lparr>progressAnimationFrame := False\<rparr>"

definition updateProgress :: "real \<Rightarrow> track \<Rightarrow> track" where
  "updateProgress now t =
     t\<lparr>currentTime :=
         (if bufferSourceNode t \<noteq> None \<and> audioContext t
          then max 0 (now - webAudioStartedPlayingAt t)
          else case audio t of
            Some a \<Rightarrow> a_currentTime a
          | None \<Rightarrow> if audioBuffer t \<noteq> None \<and> bufferSourceNode t = None
                    then currentTime t else 0),
       duration :=
         (case audioBuffer t of
            Some b \<Rightarrow> buffer_duration b
          | None \<Rightarrow> (case audio t of Some a \<Rightarrow> a_duration a | None \<Rightarrow> 0))\<rparr>"

definition checkPreloadNext :: "track \<Rightarrow> track" where
  "checkPreloadNext t =
     (if onProgress t
      then t\<lparr>effects := effects t @
             [CallOnProgress
                (GaplessTrackInfo (idx t) (currentTime t) (duration t)
                   (playback t = Playing) (playback t = Paused) (volume t) (trackUrl t)
                   (audioSource t = Webaudio)
                   (if audioSource t = LoadingWebAudio then LOADING
                    else if audioBuffer t \<noteq> None then LOADED else NONE))]\<rparr>
      else t)"

definition seekWebAudio :: "real \<Rightarrow> track_event \<Rightarrow> track \<Rightarrow> track" where
  "seekWebAudio now ev t =
     (case ev of
        T_SEEK evtime \<Rightarrow>
          let time = max 0 evtime in
          if audioBuffer t = None \<or> \<not> audioContext t then t
          else
            let t1 = (case gainNode t of None \<Rightarrow> t\<lparr>gainNode := Some (volume t)\<rparr> | Some g \<Rightarrow> t);
                wasPlaying = (bufferSourceNode t1 \<noteq> None);
                t2 = (case bufferSourceNode t1 of
                        None \<Rightarrow> t1
                      | Some n \<Rightarrow> (stopNode n t1)\<lparr>bufferSourceNode := None\<rparr>);
                t3 = t2\<lparr>currentTime := time\<rparr>
            in if wasPlaying then createAndStartBufferSource now time t3 else t3
      | _ \<Rightarrow> t)"

definition seekHTML5 :: "track_event \<Rightarrow> track \<Rightarrow> track" where
  "seekHTML5 ev t =
     (case ev of
        T_SEEK evtime \<Rightarrow>
          let time = max 0 evtime in
          (case audio t of
             Some a \<Rightarrow> t\<lparr>audio := Some (a\<lparr>a_currentTime := time\<rparr>), currentTime := time\<rparr>
           | None \<Rightarrow> t)
      | _ \<Rightarrow> t)"

definition setVolume :: "track_event \<Rightarrow> track \<Rightarrow> track" where
  "setVolume ev t =
     (case ev of
        T_SET_VOLUME v \<Rightarrow>
          let vol = max 0 (min 1 v) in
          t\<lparr>volume := vol,
            audio := (case audio t of None \<Rightarrow> None | Some a \<Rightarrow> Some (a\<lparr>a_volume := vol\<rparr>)),
            gainNode := (case gainNode t of None \<Rightarrow> None | Some g \<Rightarrow> Some vol)\<rparr>
      | _ \<Rightarrow> t)"

definition preload :: "track \<Rightarrow> track" where
  "preload t =
     (let t1 = (case audio t of
                  None \<Rightarrow> t
                | Some a \<Rightarrow> if \<not> a_preloadAuto a
                            then t\<lparr>audio := Some (a\<lparr>a_preloadAuto := True\<rparr>)\<rparr> else t)
      in if audioBuffer t1 = None \<and> \<not> webAudioIsDisabled t1
         then t1\<lparr>mailbox := mailbox t1 @ [T_LOAD_WEBAUDIO]\<rparr>
         else t1)"

text \<open>
  \<open>startLoadingWebAudio\<close> launches the promise chain fetch, arrayBuffer, decodeAudioData.
  The chain ends in exactly one of two handlers, each of which only sends an event to the
  machine; \<open>pipeline_event\<close> is that conversion of the outcome of the chain.
\<close>

definition startLoadingWebAudio :: "track \<Rightarrow> track" where
  "startLoadingWebAudio t =
     (if trackUrl t = [] \<or> \<not> audioContext t then t
      else t\<lparr>effects := effects t @ [Fetch (trackUrl t)]\<rparr>)"

definition pipeline_event :: "string + audio_buffer \<Rightarrow> track_event" where
  "pipeline_event outcome =
     (case outcome of
        Inr buffer \<Rightarrow> T_WEBAUDIO_LOADED buffer
      | Inl error \<Rightarrow> T_WEBAUDIO_ERROR error)"

definition storeWebAudioBuffer :: "track_event \<Rightarrow> track \<Rightarrow> track" where
  "storeWebAudioBuffer ev t =
     (case ev of
        T_WEBAUDIO_LOADED buffer \<Rightarrow>
          (if onTrackLoaded t then t\<lparr>effects := effects t @ [CallOnTrackLoaded (idx t)]\<rparr> else t)
            \<lparr>audioBuffer := Some buffer\<rparr>
      | _ \<Rightarrow> t\<lparr>audioBuffer := None\<rparr>)"

definition setupWebAudio :: "real \<Rightarrow> track \<Rightarrow> track" where
  "setupWebAudio now t =
     (if \<not> audioContext t \<or> audioBuffer t = None \<or> gainNode t = None then t
      else
        let time = (case audio t of
                      Some a \<Rightarrow> if a_currentTime a \<noteq> 0 then a_currentTime a else currentTime t
                    | None \<Rightarrow> currentTime t);
            wasPlaying = (case audio t of Some a \<Rightarrow> \<not> a_paused a | None \<Rightarrow> False);
            t1 = t\<lparr>currentTime := time\<rparr>;
            t2 = (if wasPlaying then createAndStartBufferSource now time t1 else t1)
        in t2\<lparr>audio := None\<rparr>)"

definition cleanupWebAudio :: "track \<Rightarrow> track" where
  "cleanupWebAudio t = (case bufferSourceNode t of None \<Rightarrow> t | Some n \<Rightarrow> stopNode n t)"

definition handleEnded :: "track \<Rightarrow> track" where
  "handleEnded t =
     (let t1 = t\<lparr>progressAnimationFrame := False, bufferSourceNode := None\<rparr>;
          t2 = (if onTrackEnded t1
                then t1\<lparr>effects := effects t1 @ [CallOnTrackEnded (idx t1)]\<rparr> else t1)
      in if onEnded t2 then t2\<lparr>effects := effects t2 @ [CallOnEnded]\<rparr> else t2)"

definition logWebAudioError :: "track_event \<Rightarrow> track \<Rightarrow> track" where
  "logWebAudioError ev t =
     (case ev of
        T_WEBAUDIO_ERROR error \<Rightarrow> t\<lparr>effects := effects t @ [ConsoleError error]\<rparr>
      | _ \<Rightarrow> t)"

subsection \<open>Guards\<close>

definition canUseWebAudio :: "track \<Rightarrow> bool" where
  "canUseWebAudio t \<longleftrightarrow> \<not> webAudioIsDisabled t \<and> audioContext t \<and> audioBuffer t = None"

definition hasWebAudioBuffer :: "track \<Rightarrow> bool" where
  "hasWebAudioBuffer t \<longleftrightarrow> audioBuffer t \<noteq> None"

definition isUsingWebAudio :: "track \<Rightarrow> bool" where
  "isUsingWebAudio t \<longleftrightarrow> audioBuffer t \<noteq> None \<and> \<not> webAudioIsDisabled t"

subsection \<open>The machine\<close>

text \<open>
  One event is taken by each region that has an enabled transition for it in its current
  state; the actions of a transition run in the order listed, each on the context the
  previous one left, followed by the entry action of the target state. Only
  \<open>DEACTIVATE\<close> is handled by both regions; the \<open>audioSource\<close> region comes first in the
  machine, and its target \<open>html\<close> has no entry action. \<open>SET_VOLUME\<close> and \<open>PRELOAD\<close> are
  handled at the root. An event with no enabled transition is dropped.
\<close>

definition audioSource_region :: "real \<Rightarrow> track_event \<Rightarrow> track \<Rightarrow> track" where
  "audioSource_region now ev t =
     (case audioSource t of
        Html \<Rightarrow>
          (case ev of
             T_LOAD_WEBAUDIO \<Rightarrow>
               if canUseWebAudio t
               then startLoadingWebAudio (t\<lparr>audioSource := LoadingWebAudio\<rparr>) else t
           | T_SWITCH_TO_WEBAUDIO \<Rightarrow>
               if hasWebAudioBuffer t
               then setupWebAudio now (t\<lparr>audioSource := Webaudio\<rparr>) else t
           | _ \<Rightarrow> t)
      | LoadingWebAudio \<Rightarrow>
          (case ev of
             T_WEBAUDIO_LOADED b \<Rightarrow>
               setupWebAudio now ((storeWebAudioBuffer ev t)\<lparr>audioSource := Webaudio\<rparr>)
           | T_WEBAUDIO_ERROR e \<Rightarrow> (logWebAudioError ev t)\<lparr>audioSource := Html\<rparr>
           | _ \<Rightarrow> t)
      | Webaudio \<Rightarrow>
          (case ev of
             T_DEACTIVATE \<Rightarrow> (cleanupWebAudio t)\<lparr>audioSource := Html\<rparr>
           | _ \<Rightarrow> t))"

definition playback_region :: "real \<Rightarrow> track_event \<Rightarrow> track \<Rightarrow> track" where
  "playback_region now ev t =
     (case playback t of
        Paused \<Rightarrow>
          (case ev of
             T_ACTIVATE \<Rightarrow> createAudioElementIfNeeded t
           | T_PLAY \<Rightarrow>
               if isUsingWebAudio t
               then (startProgressTracking (resumeWebAudio now t))\<lparr>playback := Playing\<rparr>
               else (startProgressTracking (startPlayback (createAudioElementIfNeeded t)))
                      \<lparr>playback := Playing\<rparr>
           | T_DEACTIVATE \<Rightarrow> destroyAudioElement t
           | T_SEEK time \<Rightarrow> if isUsingWebAudio t then seekWebAudio now ev t else seekHTML5 ev t
           | _ \<Rightarrow> t)
      | Playing \<Rightarrow>
          (case ev of
             T_PAUSE \<Rightarrow> (stopProgressTracking (pausePlayback now t))\<lparr>playback := Paused\<rparr>
           | T_ENDED \<Rightarrow> (stopProgressTracking (handleEnded t))\<lparr>playback := Paused\<rparr>
           | T_DEACTIVATE \<Rightarrow>
               (stopProgressTracking (destroyAudioElement (pausePlayback now t)))
                 \<lparr>playback := Paused\<rparr>
           | T_SEEK time \<Rightarrow> if isUsingWebAudio t then seekWebAudio now ev t else seekHTML5 ev t
           | T_PROGRESS \<Rightarrow> checkPreloadNext (updateProgress now t)
           | _ \<Rightarrow> t))"

definition track_transition :: "real \<Rightarrow> track_event \<Rightarrow> track \<Rightarrow> track" where
  "track_transition now ev t =
     (case ev of
        T_SET_VOLUME v \<Rightarrow> setVolume ev t
      | T_PRELOAD \<Rightarrow> preload t
      | _ \<Rightarrow> playback_region now ev (audioSource_region now ev t))"

text \<open>
  \<open>actor.send(event)\<close>: the event is processed to completion, then the events the machine
  sent to itself meanwhile, in order. Those are only \<open>LOAD_WEBAUDIO\<close> and
  \<open>SWITCH_TO_WEBAUDIO\<close>, whose transitions send nothing, so that one pass over the
  mailbox empties it (lemma \<open>track_send_mailbox\<close>).
\<close>

definition track_send :: "real \<Rightarrow> track_event \<Rightarrow> track \<Rightarrow> track" where
  "track_send now ev t =
     (let t1 = track_transition now ev t
      in foldl (\<lambda>s e. track_transition now e s) (t1\<lparr>mailbox := []\<rparr>) (mailbox t1))"

text \<open>The context \<open>createTrackMachine\<close> starts from, given the fields of its input.\<close>

definition spawnTrack ::
  "nat \<Rightarrow> string \<Rightarrow> int \<Rightarrow> real \<Rightarrow> bool \<Rightarrow> bool \<Rightarrow> bool \<Rightarrow> bool \<Rightarrow> bool \<Rightarrow> track" where
  "spawnTrack r url i vol disabled cbProgress cbEnded cbLoaded cbTrackEnded =
     \<lparr>ref = r, audioSource = Html, playback = Paused,
      trackUrl = url, idx = i, volume = (if vol = 0 then 1 else vol),
      webAudioIsDisabled = disabled,
      onProgress = cbProgress, onEnded = cbEnded,
      onTrackLoaded = cbLoaded, onTrackEnded = cbTrackEnded,
      currentTime = 0, duration = 0, audio = None, audioContext = True,
      audioBuffer = None, bufferSourceNode = None, gainNode = None,
      webAudioStartedPlayingAt = 0, webAudioPausedDuration = 0, webAudioPausedAt = 0,
      progressAnimationFrame = False, nodes = [], effects = [], mailbox = []\<rparr>"

subsection \<open>Runs of a track and the history of its buffer sources\<close>

text \<open>
  A run of the track machine: the events sent to the actor, one after the other, each with
  the reading of the audio clock at that moment.
\<close>

definition track_run :: "(real \<times> track_event) list \<Rightarrow> track \<Rightarrow> track" where
  "track_run evs t = foldl (\<lambda>s (now, ev). track_send now ev s) t evs"

text \<open>
  Three properties of the calls made on one buffer source: how often \<open>start\<close> was
  called; that no \<open>start\<close> follows a \<open>stop\<close>; that every \<open>stop\<close> comes directly after
  \<open>onended = null\<close>.
\<close>

definition is_Start :: "node_op \<Rightarrow> bool" where
  "is_Start op = (case op of Start p \<Rightarrow> True | _ \<Rightarrow> False)"

definition start_count :: "node_op list \<Rightarrow> nat" where
  "start_count ops = length (filter is_Start ops)"

fun never_restarted :: "node_op list \<Rightarrow> bool" where
  "never_restarted [] = True"
| "never_restarted (op # ops) =
     ((op = Stop \<longrightarrow> \<not> list_ex is_Start ops) \<and> never_restarted ops)"

fun stops_detached_after :: "node_op \<Rightarrow> node_op list \<Rightarrow> bool" where
  "stops_detached_after prev [] = True"
| "stops_detached_after prev (op # ops) =
     ((op = Stop \<longrightarrow> prev = ClearOnended) \<and> stops_detached_after op ops)"

definition stops_detached :: "node_op list \<Rightarrow> bool" where
  "stops_detached ops =
     (case ops of [] \<Rightarrow> True | op # rest \<Rightarrow> op \<noteq> Stop \<and> stops_detached_after op rest)"

text \<open>
  The exact shape of such a history in every run: the four calls of
  \<open>createAndStartBufferSource\<close>, then any number of teardowns.
\<close>

fun teardowns :: "node_op list \<Rightarrow> bool" where
  "teardowns [] = True"
| "teardowns (ClearOnended # Stop # Disconnect # ops) = teardowns ops"
| "teardowns ops = False"

fun created_then_torn_down :: "node_op list \<Rightarrow> bool" where
  "created_then_torn_down (SetBuffer # Connect # SetOnended # Start p # ops) = teardowns ops"
| "created_then_torn_down ops = False"

text \<open>
  Invariants of the context in every run: the handle names a node of the history; a handle
  exists only with a decoded buffer, and a buffer only where Web Audio is enabled and
  there is an audio context; while the pipeline is running its guard still holds; between
  two events the mailbox of the machine is empty.
\<close>

definition nodes_inv :: "track \<Rightarrow> bool" where
  "nodes_inv t \<longleftrightarrow>
     (\<forall>n. bufferSourceNode t = Some n \<longrightarrow> n < length (nodes t))
   \<and> list_all created_then_torn_down (nodes t)
   \<and> (audioBuffer t = None \<longrightarrow> bufferSourceNode t = None)
   \<and> (audioBuffer t \<noteq> None \<longrightarrow> \<not> webAudioIsDisabled t)
   \<and> audioContext t"

definition track_inv :: "track \<Rightarrow> bool" where
  "track_inv t \<longleftrightarrow>
     nodes_inv t \<and> mailbox t = [] \<and> (audioSource t = LoadingWebAudio \<longrightarrow> canUseWebAudio t)"

text \<open>The events a track sends to itself.\<close>

definition self_sent :: "track_event list \<Rightarrow> bool" where
  "self_sent es \<longleftrightarrow> set es \<subseteq> {T_LOAD_WEBAUDIO, T_SWITCH_TO_WEBAUDIO}"

section \<open>Queue unit: the machine of queueMachine.ts\<close>

text \<open>
  The queue machine has the states paused, playing and ended and the context
  \<open>QueueContext\<close>. A \<open>TrackActor\<close> is modelled by the snapshot of its machine, which
  carries the reference \<open>ref\<close> that gives the actor its identity; \<open>trackActors\<close> is the
  list of these snapshots, and sending an event to an actor replaces its snapshot by the
  one \<open>track_send\<close> computes. Every \<open>actor.send\<close> and every callback the queue invokes
  is also appended to \<open>q_effects\<close>, in order. Events the queue sends to itself
  (\<open>self.send\<close>) go to \<open>q_mailbox\<close> and are processed after the current event.
  The MediaSession actions only talk to the browser's device integration and are left out,
  as are the \<open>skipHEAD\<close> and \<open>metadata\<close> fields of \<open>ADD_TRACK\<close>. An absent
  \<open>playImmediately\<close> is \<open>False\<close>. Fields whose names the track record already uses
  carry the prefix \<open>q_\<close>.
\<close>

datatype queue_state = QPaused | QPlaying | QEnded

datatype queue_event =
    Q_PLAY
  | Q_PAUSE
  | Q_NEXT
  | Q_PREVIOUS
  | Q_GOTO int bool
  | Q_TRACK_ENDED
  | Q_TRACK_LOADED int
  | Q_SEEK real
  | Q_SET_VOLUME real
  | Q_ADD_TRACK string
  | Q_REMOVE_TRACK nat
  | Q_INTERNAL_UPDATE_MEDIA_SESSION

datatype queue_effect =
    Sent nat track_event
  | CallQueueOnEnded
  | CallOnPlayNextTrack "nat option"
  | CallOnPlayPreviousTrack "nat option"
  | CallOnStartNewTrack "nat option"

record queue =
  qstate :: queue_state
  tracks :: "string list"
  currentTrackIdx :: int
  q_volume :: real
  q_webAudioIsDisabled :: bool
  trackActors :: "track list"
  q_onProgress :: bool
  q_onEnded :: bool
  onPlayNextTrack :: bool
  onPlayPreviousTrack :: bool
  onStartNewTrack :: bool
  q_effects :: "queue_effect list"
  q_mailbox :: "queue_event list"
  nextRef :: nat

text \<open>\<open>context.trackActors[i]\<close>: \<open>undefined\<close> outside the array.\<close>

definition actorAt :: "track list \<Rightarrow> int \<Rightarrow> track option" where
  "actorAt actors i = (if 0 \<le> i \<and> i < int (length actors) then Some (actors ! nat i) else None)"

text \<open>\<open>const actor = context.trackActors[i]; if (actor) actor.send(ev)\<close>.\<close>

definition sendTo :: "real \<Rightarrow> int \<Rightarrow> track_event \<Rightarrow> queue \<Rightarrow> queue" where
  "sendTo now i ev q =
     (case actorAt (trackActors q) i of
        None \<Rightarrow> q
      | Some a \<Rightarrow>
          q\<lparr>trackActors := (trackActors q)[nat i := track_send now ev a],
            q_effects := q_effects q @ [Sent (ref a) ev]\<rparr>)"

text \<open>\<open>Array.prototype.findIndex\<close>: the first index whose element passes, or -1.\<close>

fun findIndex :: "('a \<Rightarrow> bool) \<Rightarrow> 'a list \<Rightarrow> int" where
  "findIndex P [] = -1"
| "findIndex P (x # xs) =
     (if P x then 0 else (let r = findIndex P xs in if r = -1 then -1 else r + 1))"

text \<open>\<open>const copy = [...xs]; copy.splice(i, 1)\<close> for an index \<open>i \<ge> 0\<close>.\<close>

definition splice1 :: "int \<Rightarrow> 'a list \<Rightarrow> 'a list" where
  "splice1 i xs = take (nat i) xs @ drop (nat i + 1) xs"

subsection \<open>Actions\<close>

definition activateCurrentTrack :: "real \<Rightarrow> queue \<Rightarrow> queue" where
  "activateCurrentTrack now q = sendTo now (currentTrackIdx q) T_ACTIVATE q"

definition playCurrentTrack :: "real \<Rightarrow> queue \<Rightarrow> queue" where
  "playCurrentTrack now q = sendTo now (currentTrackIdx q) T_PLAY q"

definition pauseCurrentTrack :: "real \<Rightarrow> queue \<Rightarrow> queue" where
  "pauseCurrentTrack now q = sendTo now (currentTrackIdx q) T_PAUSE q"

definition pauseAllTracks :: "real \<Rightarrow> queue \<Rightarrow> queue" where
  "pauseAllTracks now q =
     q\<lparr>trackActors := map (track_send now T_PAUSE) (trackActors q),
       q_effects := q_effects q @ map (\<lambda>a. Sent (ref a) T_PAUSE) (trackActors q)\<rparr>"

definition seekCurrentTrackToStart :: "real \<Rightarrow> queue \<Rightarrow> queue" where
  "seekCurrentTrackToStart now q = sendTo now (currentTrackIdx q) (T_SEEK 0) q"

definition seekCurrentTrack :: "real \<Rightarrow> queue_event \<Rightarrow> queue \<Rightarrow> queue" where
  "seekCurrentTrack now ev q =
     (case ev of Q_SEEK time \<Rightarrow> sendTo now (currentTrackIdx q) (T_SEEK time) q | _ \<Rightarrow> q)"

definition updateCurrentTrackIdx :: "queue_event \<Rightarrow> queue \<Rightarrow> queue" where
  "updateCurrentTrackIdx ev q =
     q\<lparr>currentTrackIdx := (case ev of Q_GOTO index playImmediately \<Rightarrow> index | _ \<Rightarrow> 0)\<rparr>"

text \<open>
  The setup of the machine also defines the action \<open>gotoTrackWithPlayOption\<close>, the
  only code that reads \<open>playImmediately\<close>. No transition of the machine lists it.
\<close>

definition gotoTrackWithPlayOption :: "real \<Rightarrow> queue_event \<Rightarrow> queue \<Rightarrow> queue" where
  "gotoTrackWithPlayOption now ev q =
     (case ev of
        Q_GOTO index playImmediately \<Rightarrow>
          let q1 = pauseAllTracks now q;
              q2 = sendTo now index (T_SEEK 0) q1;
              q3 = (if actorAt (trackActors q2) index \<noteq> None \<and> playImmediately
                    then (sendTo now index T_PLAY (sendTo now index T_ACTIVATE q2))
                           \<lparr>q_mailbox := q_mailbox q2 @ [Q_PLAY]\<rparr>
                    else q2)
          in if onStartNewTrack q
             then q3\<lparr>q_effects := q_effects q3 @
                      [CallOnStartNewTrack (map_option ref (actorAt (trackActors q3) index))]\<rparr>
             else q3
      | _ \<Rightarrow> q)"

definition playNext :: "real \<Rightarrow> queue \<Rightarrow> queue" where
  "playNext now q =
     (let q1 = sendTo now (currentTrackIdx q) T_DEACTIVATE q;
          nextIdx = currentTrackIdx q + 1
      in if nextIdx < int (length (trackActors q))
         then
           let q2 = q1\<lparr>q_mailbox := q_mailbox q1 @ [Q_GOTO nextIdx False, Q_PLAY]\<rparr>
           in if onPlayNextTrack q
              then q2\<lparr>q_effects := q_effects q2 @
                       [CallOnPlayNextTrack (map_option ref (actorAt (trackActors q2) nextIdx))]\<rparr>
              else q2
         else q1)"

definition autoAdvanceToNext :: "real \<Rightarrow> queue \<Rightarrow> queue" where
  "autoAdvanceToNext now q =
     (let q1 = sendTo now (currentTrackIdx q) T_DEACTIVATE q;
          nextIdx = currentTrackIdx q + 1
      in if nextIdx < int (length (trackActors q))
         then
           let q2 = sendTo now nextIdx T_PLAY (sendTo now nextIdx T_ACTIVATE q1);
               trackAfterNext = nextIdx + 1;
               q3 = (if trackAfterNext < int (length (trackActors q))
                     then sendTo now trackAfterNext T_PRELOAD q2 else q2);
               nextActor = map_option ref (actorAt (trackActors q3) nextIdx);
               q4 = (if onPlayNextTrack q
                     then q3\<lparr>q_effects := q_effects q3 @ [CallOnPlayNextTrack nextActor]\<rparr>
                     else q3);
               q5 = (if onStartNewTrack q
                     then q4\<lparr>q_effects := q_effects q4 @ [CallOnStartNewTrack nextActor]\<rparr>
                     else q4)
           in q5\<lparr>currentTrackIdx := nextIdx\<rparr>
         else q1)"

definition gotoNext :: "real \<Rightarrow> queue \<Rightarrow> queue" where
  "gotoNext now q =
     (let q1 = sendTo now (currentTrackIdx q) T_DEACTIVATE q;
          nextIdx = currentTrackIdx q + 1
      in if nextIdx < int (length (trackActors q))
         then
           let q2 = q1\<lparr>q_mailbox := q_mailbox q1 @ [Q_GOTO nextIdx False]\<rparr>
           in if onPlayNextTrack q
              then q2\<lparr>q_effects := q_effects q2 @
                       [CallOnPlayNextTrack (map_option ref (actorAt (trackActors q2) nextIdx))]\<rparr>
              else q2
         else q1)"

text \<open>
  The position \<open>playPrevious\<close> and \<open>gotoPrevious\<close> compare with the threshold: the
  \<open>currentTime\<close> of the current actor's snapshot, 0 when there is no current actor.
\<close>

definition currentPosition :: "queue \<Rightarrow> real" where
  "currentPosition q =
     (case actorAt (trackActors q) (currentTrackIdx q) of
        None \<Rightarrow> 0
      | Some a \<Rightarrow> currentTime a)"

definition playPrevious :: "real \<Rightarrow> queue \<Rightarrow> queue" where
  "playPrevious now q =
     (if currentPosition q > 8 then sendTo now (currentTrackIdx q) (T_SEEK 0) q
      else
        let q1 = sendTo now (currentTrackIdx q) T_DEACTIVATE q;
            prevIdx = max 0 (currentTrackIdx q - 1);
            q2 = q1\<lparr>q_mailbox := q_mailbox q1 @ [Q_GOTO prevIdx False, Q_PLAY]\<rparr>
        in if onPlayPreviousTrack q
           then q2\<lparr>q_effects := q_effects q2 @
                    [CallOnPlayPreviousTrack (map_option ref (actorAt (trackActors q2) prevIdx))]\<rparr>
           else q2)"

definition gotoPrevious :: "real \<Rightarrow> queue \<Rightarrow> queue" where
  "gotoPrevious now q =
     (if currentPosition q > 8 then sendTo now (currentTrackIdx q) (T_SEEK 0) q
      else
        let q1 = sendTo now (currentTrackIdx q) T_DEACTIVATE q;
            prevIdx = max 0 (currentTrackIdx q - 1);
            q2 = q1\<lparr>q_mailbox := q_mailbox q1 @ [Q_GOTO prevIdx False]\<rparr>
        in if onPlayPreviousTrack q
           then q2\<lparr>q_effects := q_effects q2 @
                    [CallOnPlayPreviousTrack (map_option ref (actorAt (trackActors q2) prevIdx))]\<rparr>
           else q2)"

definition resetToFirstTrack :: "queue \<Rightarrow> queue" where
  "resetToFirstTrack q = q\<lparr>currentTrackIdx := 0\<rparr>"

definition setVolume_queue :: "queue_event \<Rightarrow> queue \<Rightarrow> queue" where
  "setVolume_queue ev q =
     q\<lparr>q_volume := (case ev of Q_SET_VOLUME v \<Rightarrow> max 0 (min 1 v) | _ \<Rightarrow> 1)\<rparr>"

definition spawnInitialTracks :: "queue \<Rightarrow> queue" where
  "spawnInitialTracks q =
     q\<lparr>trackActors :=
         map (\<lambda>(i, url).
                spawnTrack (nextRef q + i) url (int i) (q_volume q) (q_webAudioIsDisabled q)
                  (q_onProgress q) (q_onEnded q) True True)
             (enumerate 0 (tracks q)),
       nextRef := nextRef q + length (tracks q)\<rparr>"

definition loadCurrentTrack :: "real \<Rightarrow> queue \<Rightarrow> queue" where
  "loadCurrentTrack now q = sendTo now (currentTrackIdx q) T_PRELOAD q"

definition handleTrackLoaded :: "real \<Rightarrow> queue_event \<Rightarrow> queue \<Rightarrow> queue" where
  "handleTrackLoaded now ev q =
     (case ev of
        Q_TRACK_LOADED trackIndex \<Rightarrow>
          if trackIndex = currentTrackIdx q
          then
            let nextIdx = currentTrackIdx q + 1
            in if nextIdx < int (length (trackActors q)) then sendTo now nextIdx T_PRELOAD q else q
          else q
      | _ \<Rightarrow> q)"

definition addTrack :: "queue_event \<Rightarrow> queue \<Rightarrow> queue" where
  "addTrack ev q =
     (case ev of
        Q_ADD_TRACK url \<Rightarrow>
          q\<lparr>tracks := tracks q @ [url],
            trackActors := trackActors q @
              [spawnTrack (nextRef q) url (int (length (tracks q))) (q_volume q)
                 (q_webAudioIsDisabled q) (q_onProgress q) (q_onEnded q) False False],
            nextRef := nextRef q + 1\<rparr>
      | _ \<Rightarrow> q)"

definition removeTrack :: "queue_event \<Rightarrow> queue \<Rightarrow> queue" where
  "removeTrack ev q =
     (case ev of
        Q_REMOVE_TRACK track \<Rightarrow>
          let index = findIndex (\<lambda>actor. ref actor = track) (trackActors q)
          in if index = -1 then q
             else
               let newLength = int (length (trackActors q)) - 1
               in q\<lparr>tracks := splice1 index (tracks q),
                    trackActors := splice1 index (trackActors q),
                    currentTrackIdx :=
                      (if currentTrackIdx q \<ge> newLength \<and> currentTrackIdx q > 0
                       then newLength - 1 else currentTrackIdx q)\<rparr>
      | _ \<Rightarrow> q)"

definition notifyStartNewTrack :: "queue \<Rightarrow> queue" where
  "notifyStartNewTrack q =
     (if onStartNewTrack q
      then q\<lparr>q_effects := q_effects q @
               [CallOnStartNewTrack (map_option ref (actorAt (trackActors q) (currentTrackIdx q)))]\<rparr>
      else q)"

definition notifyEnded :: "queue \<Rightarrow> queue" where
  "notifyEnded q = (if q_onEnded q then q\<lparr>q_effects := q_effects q @ [CallQueueOnEnded]\<rparr> else q)"

subsection \<open>Guard\<close>

definition isLastTrack :: "queue \<Rightarrow> bool" where
  "isLastTrack q \<longleftrightarrow> currentTrackIdx q \<ge> int (length (trackActors q)) - 1"

subsection \<open>The machine\<close>

text \<open>
  As for a track, the actions of a transition run in the order listed, each on the
  context the previous one left; a state without a transition for an event drops it.
\<close>

definition queue_transition :: "real \<Rightarrow> queue_event \<Rightarrow> queue \<Rightarrow> queue" where
  "queue_transition now ev q =
     (case qstate q of
        QPlaying \<Rightarrow>
          (case ev of
             Q_PAUSE \<Rightarrow> (pauseCurrentTrack now q)\<lparr>qstate := QPaused\<rparr>
           | Q_TRACK_ENDED \<Rightarrow>
               if isLastTrack q then (notifyEnded q)\<lparr>qstate := QEnded\<rparr>
               else autoAdvanceToNext now q
           | Q_NEXT \<Rightarrow> playNext now q
           | Q_PREVIOUS \<Rightarrow> playPrevious now q
           | Q_GOTO index playImmediately \<Rightarrow>
               loadCurrentTrack now (notifyStartNewTrack (playCurrentTrack now
                 (seekCurrentTrackToStart now (updateCurrentTrackIdx ev (pauseAllTracks now q)))))
           | Q_SEEK time \<Rightarrow> seekCurrentTrack now ev q
           | Q_SET_VOLUME v \<Rightarrow> setVolume_queue ev q
           | Q_ADD_TRACK url \<Rightarrow> addTrack ev q
           | Q_REMOVE_TRACK track \<Rightarrow> removeTrack ev q
           | Q_TRACK_LOADED trackIndex \<Rightarrow> handleTrackLoaded now ev q
           | _ \<Rightarrow> q)
      | QPaused \<Rightarrow>
          (case ev of
             Q_PLAY \<Rightarrow> (playCurrentTrack now q)\<lparr>qstate := QPlaying\<rparr>
           | Q_NEXT \<Rightarrow> gotoNext now q
           | Q_PREVIOUS \<Rightarrow> gotoPrevious now q
           | Q_GOTO index playImmediately \<Rightarrow>
               loadCurrentTrack now
                 (seekCurrentTrackToStart now (updateCurrentTrackIdx ev (pauseAllTracks now q)))
           | Q_SEEK time \<Rightarrow> seekCurrentTrack now ev q
           | Q_SET_VOLUME v \<Rightarrow> setVolume_queue ev q
           | Q_ADD_TRACK url \<Rightarrow> addTrack ev q
           | Q_REMOVE_TRACK track \<Rightarrow> removeTrack ev q
           | Q_TRACK_LOADED trackIndex \<Rightarrow> handleTrackLoaded now ev q
           | _ \<Rightarrow> q)
      | QEnded \<Rightarrow>
          (case ev of
             Q_PLAY \<Rightarrow>
               (notifyStartNewTrack (playCurrentTrack now
                  (activateCurrentTrack now (resetToFirstTrack q))))\<lparr>qstate := QPlaying\<rparr>
           | Q_GOTO index playImmediately \<Rightarrow>
               (loadCurrentTrack now (notifyStartNewTrack (playCurrentTrack now
                  (seekCurrentTrackToStart now (updateCurrentTrackIdx ev (pauseAllTracks now q))))))
                 \<lparr>qstate := QPaused\<rparr>
           | Q_SET_VOLUME v \<Rightarrow> setVolume_queue ev q
           | Q_ADD_TRACK url \<Rightarrow> addTrack ev q
           | Q_REMOVE_TRACK track \<Rightarrow> removeTrack ev q
           | Q_TRACK_LOADED trackIndex \<Rightarrow> handleTrackLoaded now ev q
           | _ \<Rightarrow> q))"

text \<open>
  \<open>queueActor.send(event)\<close> from outside: the event is processed, then the events the
  queue sent to itself meanwhile. Those are only \<open>GOTO\<close> and \<open>PLAY\<close>, whose
  transitions send nothing to the queue (lemma \<open>queue_send_mailbox\<close>). A track reaches
  the queue through the callbacks it was spawned with: its effect \<open>CallOnTrackEnded\<close>
  is the event \<open>TRACK_ENDED\<close> of the queue (\<open>deliver_ENDED\<close> below), its effect
  \<open>CallOnTrackLoaded i\<close> the event \<open>TRACK_LOADED i\<close>. The queue handles both without
  reading the snapshot of any track.
\<close>

definition queue_send :: "real \<Rightarrow> queue_event \<Rightarrow> queue \<Rightarrow> queue" where
  "queue_send now ev q =
     (let q1 = queue_transition now ev q
      in foldl (\<lambda>s e. queue_transition now e s) (q1\<lparr>q_mailbox := []\<rparr>) (q_mailbox q1))"

section \<open>The facade: class Gapless\<close>

text \<open>
  The constructor creates the queue actor from the options and starts it, which runs the
  entry actions \<open>spawnInitialTracks\<close> and \<open>loadCurrentTrack\<close> in the initial state
  paused. The five booleans say which callbacks the options carry.
\<close>

definition Gapless_new ::
  "real \<Rightarrow> string list \<Rightarrow> bool \<Rightarrow> bool \<Rightarrow> bool \<Rightarrow> bool \<Rightarrow> bool \<Rightarrow> bool \<Rightarrow> queue" where
  "Gapless_new now urls disabled cbProgress cbEnded cbNext cbPrevious cbStart =
     loadCurrentTrack now (spawnInitialTracks
       \<lparr>qstate = QPaused, tracks = urls, currentTrackIdx = 0, q_volume = 1,
        q_webAudioIsDisabled = disabled, trackActors = [],
        q_onProgress = cbProgress, q_onEnded = cbEnded, onPlayNextTrack = cbNext,
        onPlayPreviousTrack = cbPrevious, onStartNewTrack = cbStart,
        q_effects = [], q_mailbox = [], nextRef = 0\<rparr>)"

definition Gapless_play :: "real \<Rightarrow> queue \<Rightarrow> queue" where
  "Gapless_play now q = queue_send now Q_PLAY q"

definition Gapless_pause :: "real \<Rightarrow> queue \<Rightarrow> queue" where
  "Gapless_pause now q = queue_send now Q_PAUSE q"



definition Gapless_gotoTrack :: "real \<Rightarrow> int \<Rightarrow> bool \<Rightarrow> queue \<Rightarrow> queue" where
  "Gapless_gotoTrack now index playImmediately q = queue_send now (Q_GOTO index playImmediately) q"


definition Gapless_setVolume :: "real \<Rightarrow> real \<Rightarrow> queue \<Rightarrow> queue" where
  "Gapless_setVolume now v q = queue_send now (Q_SET_VOLUME v) q"

definition Gapless_addTrack :: "real \<Rightarrow> string \<Rightarrow> queue \<Rightarrow> queue" where
  "Gapless_addTrack now url q = queue_send now (Q_ADD_TRACK url) q"

definition Gapless_removeTrack :: "real \<Rightarrow> int \<Rightarrow> queue \<Rightarrow> queue" where
  "Gapless_removeTrack now trackIndex q =
     (case actorAt (trackActors q) trackIndex of
        None \<Rightarrow> q
      | Some track \<Rightarrow> queue_send now (Q_REMOVE_TRACK (ref track)) q)"

section \<open>The end of a track's audio\<close>

text \<open>
  The browser tells a track that its audio has run to its end through the \<open>onended\<close>
  listener of the audio element or of the buffer source; both listeners only do
  \<open>self.send({ type: 'ENDED' })\<close> on the track actor. \<open>deliver_ENDED now i q\<close> is that
  event arriving at the actor at position \<open>i\<close> of \<open>trackActors\<close> while the queue is
  idle. The track takes its transition, in which \<open>handleEnded\<close> calls the two callbacks
  the track was spawned with: first \<open>onTrackEnded\<close>, which for the tracks of
  \<open>spawnInitialTracks\<close> is the function that sends \<open>TRACK_ENDED\<close> to the queue, then
  \<open>onEnded\<close>, the function the queue was given by its user. The queue therefore reacts
  inside the transition of the track. Its reaction reads no snapshot of a track; an event
  it sends to another track is processed at once, and an event it sends to the reporting
  track waits in the mailbox of that actor until its transition is over. So the outcome is
  the one computed here: the transition of the track, followed by the reaction of the
  queue. A track that is not playing drops \<open>ENDED\<close>, and a track added by \<open>addTrack\<close>
  has no \<open>onTrackEnded\<close>: in both cases the queue is told nothing.
\<close>

definition deliver_ENDED :: "real \<Rightarrow> int \<Rightarrow> queue \<Rightarrow> queue" where
  "deliver_ENDED now i q =
     (case actorAt (trackActors q) i of
        None \<Rightarrow> q
      | Some a \<Rightarrow>
          let a' = track_send now T_ENDED a;
              q1 = q\<lparr>trackActors := (trackActors q)[nat i := a']\<rparr>
          in if CallOnTrackEnded (idx a) \<in> set (drop (length (effects a)) (effects a'))
             then queue_send now Q_TRACK_ENDED q1 else q1)"

text \<open>
  The function \<open>onEnded\<close> of the options is held by the queue and, handed down by
  \<open>spawnInitialTracks\<close> and \<open>addTrack\<close>, by every track. \<open>onEnded_calls\<close> counts the
  calls made on it so far: those of the queue (\<open>notifyEnded\<close>) and those of the tracks
  of the list (\<open>handleEnded\<close>).
\<close>

definition onEnded_calls :: "queue \<Rightarrow> nat" where
  "onEnded_calls q =
     length (filter (\<lambda>e. e = CallQueueOnEnded) (q_effects q))
   + sum_list (map (\<lambda>a. length (filter (\<lambda>e. e = CallOnEnded) (effects a))) (trackActors q))"

section \<open>Quiescent states\<close>

text \<open>
  Between two commands nothing is pending: the mailbox of the queue and the mailbox of
  every track are empty. \<open>self_sent_queue\<close> describes the events the queue sends to
  itself.
\<close>

definition self_sent_queue :: "queue_event list \<Rightarrow> bool" where
  "self_sent_queue es \<longleftrightarrow> (\<forall>e \<in> set es. e = Q_PLAY \<or> (\<exists>i. e = Q_GOTO i False))"

definition tracks_idle :: "queue \<Rightarrow> bool" where
  "tracks_idle q \<longleftrightarrow> list_all (\<lambda>a. mailbox a = []) (trackActors q)"

section \<open>Facts about the track machine\<close>

subsection \<open>The reference of an actor never changes\<close>

lemmas track_action_defs =
  stopNode_def createAndStartBufferSource_def destroyAudioElement_def startPlayback_def
  createAudioElementIfNeeded_def resumeWebAudio_def pausePlayback_def
  startProgressTracking_def stopProgressTracking_def updateProgress_def checkPreloadNext_def
  seekWebAudio_def seekHTML5_def setVolume_def preload_def startLoadingWebAudio_def
  storeWebAudioBuffer_def setupWebAudio_def cleanupWebAudio_def handleEnded_def
  logWebAudioError_def

lemma ref_actions [simp]:
  "ref (stopNode n t) = ref t"
  "ref (createAndStartBufferSource now p t) = ref t"
  "ref (destroyAudioElement t) = ref t"
  "ref (startPlayback t) = ref t"
  "ref (createAudioElementIfNeeded t) = ref t"
  "ref (resumeWebAudio now t) = ref t"
  "ref (pausePlayback now t) = ref t"
  "ref (startProgressTracking t) = ref t"
  "ref (stopProgressTracking t) = ref t"
  "ref (updateProgress now t) = ref t"
  "ref (checkPreloadNext t) = ref t"
  "ref (seekWebAudio now ev t) = ref t"
  "ref (seekHTML5 ev t) = ref t"
  "ref (setVolume ev t) = ref t"
  "ref (preload t) = ref t"
  "ref (startLoadingWebAudio t) = ref t"
  "ref (storeWebAudioBuffer ev t) = ref t"
  "ref (setupWebAudio now t) = ref t"
  "ref (cleanupWebAudio t) = ref t"
  "ref (handleEnded t) = ref t"
  "ref (logWebAudioError ev t) = ref t"
  by (simp_all add: track_action_defs Let_def split: option.splits track_event.splits)

lemma ref_audioSource_region [simp]: "ref (audioSource_region now ev t) = ref t"
  by (simp add: audioSource_region_def split: audio_source.splits track_event.splits)

lemma ref_playback_region [simp]: "ref (playback_region now ev t) = ref t"
  by (simp add: playback_region_def split: playback.splits track_event.splits)

lemma ref_track_transition [simp]: "ref (track_transition now ev t) = ref t"
  by (simp add: track_transition_def split: track_event.splits)

lemma ref_foldl_transition [simp]:
  "ref (foldl (\<lambda>s e. track_transition now e s) t evs) = ref t"
  by (induction evs arbitrary: t) simp_all

lemma ref_track_send [simp]: "ref (track_send now ev t) = ref t"
  by (simp add: track_send_def Let_def)

subsection \<open>What the actions of a track leave alone\<close>

lemma audioSource_actions [simp]:
  "audioSource (stopNode n t) = audioSource t"
  "audioSource (createAndStartBufferSource now p t) = audioSource t"
  "audioSource (destroyAudioElement t) = audioSource t"
  "audioSource (startPlayback t) = audioSource t"
  "audioSource (createAudioElementIfNeeded t) = audioSource t"
  "audioSource (resumeWebAudio now t) = audioSource t"
  "audioSource (pausePlayback now t) = audioSource t"
  "audioSource (startProgressTracking t) = audioSource t"
  "audioSource (stopProgressTracking t) = audioSource t"
  "audioSource (updateProgress now t) = audioSource t"
  "audioSource (checkPreloadNext t) = audioSource t"
  "audioSource (seekWebAudio now ev t) = audioSource t"
  "audioSource (seekHTML5 ev t) = audioSource t"
  "audioSource (setVolume ev t) = audioSource t"
  "audioSource (preload t) = audioSource t"
  "audioSource (startLoadingWebAudio t) = audioSource t"
  "audioSource (storeWebAudioBuffer ev t) = audioSource t"
  "audioSource (setupWebAudio now t) = audioSource t"
  "audioSource (cleanupWebAudio t) = audioSource t"
  "audioSource (handleEnded t) = audioSource t"
  "audioSource (logWebAudioError ev t) = audioSource t"
  by (simp_all add: track_action_defs Let_def split: option.splits track_event.splits)

lemma playback_actions [simp]:
  "playback (stopNode n t) = playback t"
  "playback (createAndStartBufferSource now p t) = playback t"
  "playback (destroyAudioElement t) = playback t"
  "playback (startPlayback t) = playback t"
  "playback (createAudioElementIfNeeded t) = playback t"
  "playback (resumeWebAudio now t) = playback t"
  "playback (pausePlayback now t) = playback t"
  "playback (startProgressTracking t) = playback t"
  "playback (stopProgressTracking t) = playback t"
  "playback (updateProgress now t) = playback t"
  "playback (checkPreloadNext t) = playback t"
  "playback (seekWebAudio now ev t) = playback t"
  "playback (seekHTML5 ev t) = playback t"
  "playback (setVolume ev t) = playback t"
  "playback (preload t) = playback t"
  "playback (startLoadingWebAudio t) = playback t"
  "playback (storeWebAudioBuffer ev t) = playback t"
  "playback (setupWebAudio now t) = playback t"
  "playback (cleanupWebAudio t) = playback t"
  "playback (handleEnded t) = playback t"
  "playback (logWebAudioError ev t) = playback t"
  by (simp_all add: track_action_defs Let_def split: option.splits track_event.splits)

lemma audioBuffer_actions [simp]:
  "audioBuffer (createAndStartBufferSource now p t) = audioBuffer t"
  "audioBuffer (destroyAudioElement t) = audioBuffer t"
  "audioBuffer (startPlayback t) = audioBuffer t"
  "audioBuffer (createAudioElementIfNeeded t) = audioBuffer t"
  "audioBuffer (resumeWebAudio now t) = audioBuffer t"
  "audioBuffer (pausePlayback now t) = audioBuffer t"
  "audioBuffer (startProgressTracking t) = audioBuffer t"
  "audioBuffer (stopProgressTracking t) = audioBuffer t"
  "audioBuffer (updateProgress now t) = audioBuffer t"
  "audioBuffer (checkPreloadNext t) = audioBuffer t"
  "audioBuffer (seekWebAudio now ev t) = audioBuffer t"
  "audioBuffer (seekHTML5 ev t) = audioBuffer t"
  "audioBuffer (setVolume ev t) = audioBuffer t"
  "audioBuffer (preload t) = audioBuffer t"
  "audioBuffer (startLoadingWebAudio t) = audioBuffer t"
  "audioBuffer (storeWebAudioBuffer (T_WEBAUDIO_LOADED b) t) = Some b"
  "audioBuffer (setupWebAudio now t) = audioBuffer t"
  "audioBuffer (cleanupWebAudio t) = audioBuffer t"
  "audioBuffer (handleEnded t) = audioBuffer t"
  "audioBuffer (logWebAudioError ev t) = audioBuffer t"
  by (simp_all add: track_action_defs Let_def split: option.splits track_event.splits)

lemma webAudioIsDisabled_actions [simp]:
  "webAudioIsDisabled (createAndStartBufferSource now p t) = webAudioIsDisabled t"
  "webAudioIsDisabled (destroyAudioElement t) = webAudioIsDisabled t"
  "webAudioIsDisabled (startPlayback t) = webAudioIsDisabled t"
  "webAudioIsDisabled (createAudioElementIfNeeded t) = webAudioIsDisabled t"
  "webAudioIsDisabled (resumeWebAudio now t) = webAudioIsDisabled t"
  "webAudioIsDisabled (pausePlayback now t) = webAudioIsDisabled t"
  "webAudioIsDisabled (startProgressTracking t) = webAudioIsDisabled t"
  "webAudioIsDisabled (stopProgressTracking t) = webAudioIsDisabled t"
  "webAudioIsDisabled (updateProgress now t) = webAudioIsDisabled t"
  "webAudioIsDisabled (checkPreloadNext t) = webAudioIsDisabled t"
  "webAudioIsDisabled (seekWebAudio now ev t) = webAudioIsDisabled t"
  "webAudioIsDisabled (seekHTML5 ev t) = webAudioIsDisabled t"
  "webAudioIsDisabled (setVolume ev t) = webAudioIsDisabled t"
  "webAudioIsDisabled (preload t) = webAudioIsDisabled t"
  "webAudioIsDisabled (startLoadingWebAudio t) = webAudioIsDisabled t"
  "webAudioIsDisabled (storeWebAudioBuffer ev t) = webAudioIsDisabled t"
  "webAudioIsDisabled (setupWebAudio now t) = webAudioIsDisabled t"
  "webAudioIsDisabled (cleanupWebAudio t) = webAudioIsDisabled t"
  "webAudioIsDisabled (handleEnded t) = webAudioIsDisabled t"
  "webAudioIsDisabled (logWebAudioError ev t) = webAudioIsDisabled t"
  by (simp_all add: track_action_defs Let_def split: option.splits track_event.splits)

lemma audioContext_actions [simp]:
  "audioContext (createAndStartBufferSource now p t) = audioContext t"
  "audioContext (destroyAudioElement t) = audioContext t"
  "audioContext (startPlayback t) = audioContext t"
  "audioContext (createAudioElementIfNeeded t) = audioContext t"
  "audioContext (resumeWebAudio now t) = audioContext t"
  "audioContext (pausePlayback now t) = audioContext t"
  "audioContext (startProgressTracking t) = audioContext t"
  "audioContext (stopProgressTracking t) = audioContext t"
  "audioContext (updateProgress now t) = audioContext t"
  "audioContext (checkPreloadNext t) = audioContext t"
  "audioContext (seekWebAudio now ev t) = audioContext t"
  "audioContext (seekHTML5 ev t) = audioContext t"
  "audioContext (setVolume ev t) = audioContext t"
  "audioContext (preload t) = audioContext t"
  "audioContext (startLoadingWebAudio t) = audioContext t"
  "audioContext (storeWebAudioBuffer ev t) = audioContext t"
  "audioContext (setupWebAudio now t) = audioContext t"
  "audioContext (cleanupWebAudio t) = audioContext t"
  "audioContext (handleEnded t) = audioContext t"
  "audioContext (logWebAudioError ev t) = audioContext t"
  by (simp_all add: track_action_defs Let_def split: option.splits track_event.splits)

lemma mailbox_actions [simp]:
  "mailbox (stopNode n t) = mailbox t"
  "mailbox (createAndStartBufferSource now p t) = mailbox t"
  "mailbox (destroyAudioElement t) = mailbox t"
  "mailbox (createAudioElementIfNeeded t) = mailbox t"
  "mailbox (resumeWebAudio now t) = mailbox t"
  "mailbox (pausePlayback now t) = mailbox t"
  "mailbox (startProgressTracking t) = mailbox t"
  "mailbox (stopProgressTracking t) = mailbox t"
  "mailbox (updateProgress now t) = mailbox t"
  "mailbox (checkPreloadNext t) = mailbox t"
  "mailbox (seekWebAudio now ev t) = mailbox t"
  "mailbox (seekHTML5 ev t) = mailbox t"
  "mailbox (setVolume ev t) = mailbox t"
  "mailbox (startLoadingWebAudio t) = mailbox t"
  "mailbox (storeWebAudioBuffer ev t) = mailbox t"
  "mailbox (setupWebAudio now t) = mailbox t"
  "mailbox (cleanupWebAudio t) = mailbox t"
  "mailbox (handleEnded t) = mailbox t"
  "mailbox (logWebAudioError ev t) = mailbox t"
  by (simp_all add: track_action_defs Let_def split: option.splits track_event.splits)

lemma mailbox_startPlayback:
  "\<exists>es. mailbox (startPlayback t) = mailbox t @ es \<and> self_sent es"
  by (auto simp: startPlayback_def self_sent_def Let_def split: option.splits)

lemma mailbox_preload:
  "\<exists>es. mailbox (preload t) = mailbox t @ es \<and> self_sent es"
  by (auto simp: preload_def self_sent_def Let_def split: option.splits)

subsection \<open>Events a region has no transition for\<close>

lemma audioSource_region_ignores [simp]:
  "audioSource_region now T_ACTIVATE t = t"
  "audioSource_region now T_PLAY t = t"
  "audioSource_region now T_PAUSE t = t"
  "audioSource_region now T_ENDED t = t"
  "audioSource_region now (T_SEEK x) t = t"
  "audioSource_region now T_PROGRESS t = t"
  by (simp_all add: audioSource_region_def split: audio_source.splits)

lemma playback_region_ignores [simp]:
  "playback_region now T_LOAD_WEBAUDIO t = t"
  "playback_region now T_SWITCH_TO_WEBAUDIO t = t"
  "playback_region now (T_WEBAUDIO_LOADED b) t = t"
  "playback_region now (T_WEBAUDIO_ERROR e) t = t"
  by (simp_all add: playback_region_def split: playback.splits)

lemma track_transition_one_region:
  "track_transition now T_ACTIVATE t = playback_region now T_ACTIVATE t"
  "track_transition now T_PLAY t = playback_region now T_PLAY t"
  "track_transition now T_PAUSE t = playback_region now T_PAUSE t"
  "track_transition now T_ENDED t = playback_region now T_ENDED t"
  "track_transition now (T_SEEK x) t = playback_region now (T_SEEK x) t"
  "track_transition now T_PROGRESS t = playback_region now T_PROGRESS t"
  "track_transition now T_LOAD_WEBAUDIO t = audioSource_region now T_LOAD_WEBAUDIO t"
  "track_transition now T_SWITCH_TO_WEBAUDIO t = audioSource_region now T_SWITCH_TO_WEBAUDIO t"
  "track_transition now (T_WEBAUDIO_LOADED b) t = audioSource_region now (T_WEBAUDIO_LOADED b) t"
  "track_transition now (T_WEBAUDIO_ERROR e) t = audioSource_region now (T_WEBAUDIO_ERROR e) t"
  by (simp_all add: track_transition_def)

subsection \<open>The mailbox of a track\<close>

lemma mailbox_audioSource_region [simp]:
  "mailbox (audioSource_region now ev t) = mailbox t"
  by (simp add: audioSource_region_def split: audio_source.splits track_event.splits)

lemma mailbox_playback_region:
  "\<exists>es. mailbox (playback_region now ev t) = mailbox t @ es \<and> self_sent es"
proof (cases "playback t = Paused \<and> ev = T_PLAY \<and> \<not> isUsingWebAudio t")
  case True
  obtain es where "mailbox (startPlayback (createAudioElementIfNeeded t)) =
      mailbox (createAudioElementIfNeeded t) @ es" "self_sent es"
    using mailbox_startPlayback by blast
  with True show ?thesis
    by (simp add: playback_region_def)
next
  case False
  then have "mailbox (playback_region now ev t) = mailbox t"
    by (auto simp: playback_region_def split: playback.splits track_event.splits)
  then show ?thesis
    by (simp add: self_sent_def)
qed

lemma mailbox_track_transition:
  "\<exists>es. mailbox (track_transition now ev t) = mailbox t @ es \<and> self_sent es"
proof (cases ev)
  case T_PRELOAD
  then show ?thesis
    using mailbox_preload [of t] by (simp add: track_transition_def)
next
  case (T_SET_VOLUME v)
  then show ?thesis
    by (simp add: track_transition_def self_sent_def)
qed (use mailbox_playback_region [of now ev "audioSource_region now ev t"]
      in \<open>simp_all add: track_transition_def\<close>)

lemma mailbox_self_sent_transition:
  "ev \<in> {T_LOAD_WEBAUDIO, T_SWITCH_TO_WEBAUDIO} \<Longrightarrow>
     mailbox (track_transition now ev t) = mailbox t"
  by (auto simp: track_transition_def playback_region_def split: playback.splits)

lemma mailbox_flush:
  "self_sent es \<Longrightarrow> mailbox (foldl (\<lambda>s e. track_transition now e s) t es) = mailbox t"
  by (induction es arbitrary: t) (simp_all add: self_sent_def mailbox_self_sent_transition)

text \<open>One pass over the mailbox empties it.\<close>

lemma track_send_mailbox:
  assumes "mailbox t = []"
  shows "mailbox (track_send now ev t) = []"
proof -
  obtain es where "mailbox (track_transition now ev t) = mailbox t @ es" "self_sent es"
    using mailbox_track_transition by blast
  with assms show ?thesis
    by (simp add: track_send_def Let_def mailbox_flush)
qed

subsection \<open>Histories of buffer sources\<close>

lemma teardowns_append:
  "teardowns ops \<Longrightarrow> teardowns (ops @ [ClearOnended, Stop, Disconnect])"
  by (induction ops rule: teardowns.induct) simp_all

lemma created_then_torn_down_append:
  "created_then_torn_down ops \<Longrightarrow>
     created_then_torn_down (ops @ [ClearOnended, Stop, Disconnect])"
  by (induction ops rule: created_then_torn_down.induct) (simp_all add: teardowns_append)

lemma teardowns_no_start: "teardowns ops \<Longrightarrow> \<not> list_ex is_Start ops"
  by (induction ops rule: teardowns.induct) (simp_all add: is_Start_def)

lemma teardowns_never_restarted: "teardowns ops \<Longrightarrow> never_restarted ops"
  by (induction ops rule: teardowns.induct) (simp_all add: teardowns_no_start is_Start_def)

lemma teardowns_stops_detached: "teardowns ops \<Longrightarrow> stops_detached_after prev ops"
  by (induction ops arbitrary: prev rule: teardowns.induct) simp_all

lemma teardowns_start_count: "teardowns ops \<Longrightarrow> filter is_Start ops = []"
  by (induction ops rule: teardowns.induct) (simp_all add: is_Start_def)

lemma created_then_torn_down_props:
  assumes "created_then_torn_down ops"
  shows "start_count ops = 1" and "never_restarted ops" and "stops_detached ops"
proof -
  from assms obtain p rest where
    ops: "ops = SetBuffer # Connect # SetOnended # Start p # rest" and rest: "teardowns rest"
    by (induction ops rule: created_then_torn_down.induct) simp_all
  show "start_count ops = 1"
    by (simp add: ops start_count_def is_Start_def teardowns_start_count [OF rest])
  show "never_restarted ops"
    by (simp add: ops teardowns_never_restarted [OF rest])
  show "stops_detached ops"
    by (simp add: ops stops_detached_def teardowns_stops_detached [OF rest])
qed

lemma list_all_update:
  "list_all P xs \<Longrightarrow> P y \<Longrightarrow> list_all P (xs[n := y])"
  using set_update_subset_insert [of xs n y] by (auto simp: list_all_iff)

subsection \<open>The invariant of the context\<close>

lemma nodes_inv_cong [simp]:
  "nodes_inv (t\<lparr>audioSource := s\<rparr>) = nodes_inv t"
  "nodes_inv (t\<lparr>playback := p\<rparr>) = nodes_inv t"
  "nodes_inv (t\<lparr>mailbox := m\<rparr>) = nodes_inv t"
  "nodes_inv (t\<lparr>effects := e\<rparr>) = nodes_inv t"
  "nodes_inv (t\<lparr>currentTime := x\<rparr>) = nodes_inv t"
  "nodes_inv (t\<lparr>gainNode := g\<rparr>) = nodes_inv t"
  "nodes_inv (t\<lparr>audio := a\<rparr>) = nodes_inv t"
  "nodes_inv (t\<lparr>webAudioPausedAt := x\<rparr>) = nodes_inv t"
  "nodes_inv (t\<lparr>progressAnimationFrame := b\<rparr>) = nodes_inv t"
  "nodes_inv (t\<lparr>duration := x\<rparr>) = nodes_inv t"
  "nodes_inv (t\<lparr>volume := x\<rparr>) = nodes_inv t"
  by (simp_all add: nodes_inv_def)

lemma nodes_inv_stopNode:
  assumes "nodes_inv t" and "bufferSourceNode t = Some n"
  shows "nodes_inv (stopNode n t)"
proof -
  have n: "n < length (nodes t)" and all: "list_all created_then_torn_down (nodes t)"
    using assms by (simp_all add: nodes_inv_def)
  then have "created_then_torn_down (nodes t ! n)"
    by (simp add: list_all_length)
  then have "created_then_torn_down (nodes t ! n @ [ClearOnended, Stop, Disconnect])"
    by (rule created_then_torn_down_append)
  with all have "list_all created_then_torn_down
      ((nodes t)[n := nodes t ! n @ [ClearOnended, Stop, Disconnect]])"
    by (rule list_all_update)
  with assms show ?thesis
    by (simp add: nodes_inv_def stopNode_def)
qed

lemma nodes_inv_create:
  "nodes_inv t \<Longrightarrow> nodes_inv (createAndStartBufferSource now p t)"
  by (simp add: nodes_inv_def createAndStartBufferSource_def Let_def)

lemma stopNode_fields [simp]:
  "bufferSourceNode (stopNode n t) = bufferSourceNode t"
  "audioBuffer (stopNode n t) = audioBuffer t"
  "webAudioIsDisabled (stopNode n t) = webAudioIsDisabled t"
  "audioContext (stopNode n t) = audioContext t"
  "length (nodes (stopNode n t)) = length (nodes t)"
  by (simp_all add: stopNode_def)

lemma nodes_inv_clear:
  "nodes_inv t \<Longrightarrow> nodes_inv (t\<lparr>bufferSourceNode := None\<rparr>)"
  by (simp add: nodes_inv_def)

lemma nodes_inv_actions:
  assumes "nodes_inv t"
  shows "nodes_inv (destroyAudioElement t)"
    and "nodes_inv (startPlayback t)"
    and "nodes_inv (createAudioElementIfNeeded t)"
    and "nodes_inv (resumeWebAudio now t)"
    and "nodes_inv (pausePlayback now t)"
    and "nodes_inv (startProgressTracking t)"
    and "nodes_inv (stopProgressTracking t)"
    and "nodes_inv (updateProgress now t)"
    and "nodes_inv (checkPreloadNext t)"
    and "nodes_inv (seekWebAudio now ev t)"
    and "nodes_inv (seekHTML5 ev t)"
    and "nodes_inv (setVolume ev t)"
    and "nodes_inv (preload t)"
    and "nodes_inv (startLoadingWebAudio t)"
    and "nodes_inv (setupWebAudio now t)"
    and "nodes_inv (cleanupWebAudio t)"
    and "nodes_inv (handleEnded t)"
    and "nodes_inv (logWebAudioError ev t)"
proof -
  have stop: "\<And>n. bufferSourceNode t = Some n \<Longrightarrow> nodes_inv (stopNode n t)"
    using assms by (rule nodes_inv_stopNode)
  show "nodes_inv (destroyAudioElement t)"
    using assms stop
    by (auto simp: destroyAudioElement_def nodes_inv_def split: option.splits)
  show "nodes_inv (startPlayback t)"
    using assms by (auto simp: startPlayback_def nodes_inv_def Let_def split: option.splits)
  show "nodes_inv (createAudioElementIfNeeded t)"
    using assms by (simp add: createAudioElementIfNeeded_def nodes_inv_def)
  show "nodes_inv (resumeWebAudio now t)"
    using assms by (simp add: resumeWebAudio_def nodes_inv_create)
  show "nodes_inv (pausePlayback now t)"
  proof (cases "bufferSourceNode t")
    case None
    with assms show ?thesis
      by (auto simp: pausePlayback_def nodes_inv_def split: option.splits)
  next
    case (Some n)
    let ?t1 = "t\<lparr>currentTime := max 0 (now - webAudioStartedPlayingAt t), webAudioPausedAt := now\<rparr>"
    have "nodes_inv ?t1" and "bufferSourceNode ?t1 = Some n"
      using assms Some by (simp_all add: nodes_inv_def)
    then have "nodes_inv (stopNode n ?t1)"
      by (rule nodes_inv_stopNode)
    then have "nodes_inv ((stopNode n ?t1)\<lparr>bufferSourceNode := None\<rparr>)"
      by (rule nodes_inv_clear)
    with assms Some show ?thesis
      by (simp add: pausePlayback_def nodes_inv_def)
  qed
  show "nodes_inv (startProgressTracking t)" "nodes_inv (stopProgressTracking t)"
    using assms by (simp_all add: startProgressTracking_def stopProgressTracking_def nodes_inv_def)
  show "nodes_inv (updateProgress now t)"
    using assms by (simp add: updateProgress_def nodes_inv_def)
  show "nodes_inv (checkPreloadNext t)"
    using assms by (simp add: checkPreloadNext_def)
  show "nodes_inv (seekWebAudio now ev t)"
    using assms
    by (cases ev)
       (auto simp: seekWebAudio_def Let_def nodes_inv_create nodes_inv_clear nodes_inv_stopNode
          split: option.splits)
  show "nodes_inv (seekHTML5 ev t)"
    using assms by (cases ev) (simp_all add: seekHTML5_def nodes_inv_def Let_def split: option.splits)
  show "nodes_inv (setVolume ev t)"
    using assms by (cases ev) (simp_all add: setVolume_def nodes_inv_def Let_def)
  show "nodes_inv (preload t)"
    using assms by (auto simp: preload_def nodes_inv_def Let_def split: option.splits)
  show "nodes_inv (startLoadingWebAudio t)"
    using assms by (simp add: startLoadingWebAudio_def)
  show "nodes_inv (setupWebAudio now t)"
  proof -
    have "\<And>x. nodes_inv (t\<lparr>currentTime := x\<rparr>)"
      using assms by (simp add: nodes_inv_def)
    then have "\<And>x. nodes_inv (createAndStartBufferSource now x (t\<lparr>currentTime := x\<rparr>))"
      by (rule nodes_inv_create)
    then have "\<And>x. nodes_inv ((createAndStartBufferSource now x (t\<lparr>currentTime := x\<rparr>))\<lparr>audio := None\<rparr>)"
      by (simp add: nodes_inv_def)
    moreover have "\<And>x. nodes_inv (t\<lparr>currentTime := x, audio := None\<rparr>)"
      using assms by (simp add: nodes_inv_def)
    ultimately show ?thesis
      using assms by (simp add: setupWebAudio_def Let_def)
  qed
  show "nodes_inv (cleanupWebAudio t)"
    using assms stop by (simp add: cleanupWebAudio_def split: option.splits)
  show "nodes_inv (handleEnded t)"
    using assms by (simp add: handleEnded_def nodes_inv_def Let_def)
  show "nodes_inv (logWebAudioError ev t)"
    using assms by (cases ev) (simp_all add: logWebAudioError_def)
qed

lemma nodes_inv_store:
  "nodes_inv t \<Longrightarrow> \<not> webAudioIsDisabled t \<Longrightarrow>
     nodes_inv (storeWebAudioBuffer (T_WEBAUDIO_LOADED b) t)"
  by (simp add: storeWebAudioBuffer_def nodes_inv_def)

subsection \<open>The invariant in every run\<close>

lemma nodes_inv_audioSource_region:
  assumes "nodes_inv t" and "audioSource t = LoadingWebAudio \<longrightarrow> canUseWebAudio t"
  shows "nodes_inv (audioSource_region now ev t)"
  using assms
  by (auto simp: audioSource_region_def nodes_inv_actions nodes_inv_store canUseWebAudio_def
        split: audio_source.splits track_event.splits)

lemma nodes_inv_playback_region:
  assumes "nodes_inv t"
  shows "nodes_inv (playback_region now ev t)"
  using assms
  by (auto simp: playback_region_def nodes_inv_actions
        split: playback.splits track_event.splits)

lemma loading_audioSource_region:
  assumes "audioSource t = LoadingWebAudio \<longrightarrow> canUseWebAudio t"
  shows "audioSource (audioSource_region now ev t) = LoadingWebAudio \<longrightarrow>
         canUseWebAudio (audioSource_region now ev t)"
  using assms
  by (auto simp: audioSource_region_def canUseWebAudio_def
        split: audio_source.splits track_event.splits)

lemma loading_playback_region:
  assumes "audioSource t = LoadingWebAudio \<longrightarrow> canUseWebAudio t"
  shows "audioSource (playback_region now ev t) = LoadingWebAudio \<longrightarrow>
         canUseWebAudio (playback_region now ev t)"
  using assms
  by (auto simp: playback_region_def canUseWebAudio_def
        split: playback.splits track_event.splits)

lemma pre_inv_track_transition:
  assumes "nodes_inv t" and "audioSource t = LoadingWebAudio \<longrightarrow> canUseWebAudio t"
  shows "nodes_inv (track_transition now ev t)"
    and "audioSource (track_transition now ev t) = LoadingWebAudio \<longrightarrow>
         canUseWebAudio (track_transition now ev t)"
proof -
  let ?t1 = "audioSource_region now ev t"
  have 1: "nodes_inv ?t1" "audioSource ?t1 = LoadingWebAudio \<longrightarrow> canUseWebAudio ?t1"
    using assms nodes_inv_audioSource_region loading_audioSource_region by blast+
  have 2: "nodes_inv (playback_region now ev ?t1)"
    "audioSource (playback_region now ev ?t1) = LoadingWebAudio \<longrightarrow>
       canUseWebAudio (playback_region now ev ?t1)"
    using 1 nodes_inv_playback_region loading_playback_region by blast+
  show "nodes_inv (track_transition now ev t)"
    using assms 2 by (cases ev) (simp_all add: track_transition_def nodes_inv_actions)
  show "audioSource (track_transition now ev t) = LoadingWebAudio \<longrightarrow>
         canUseWebAudio (track_transition now ev t)"
    using assms 2 by (cases ev) (simp_all add: track_transition_def canUseWebAudio_def)
qed

lemma pre_inv_flush:
  assumes "nodes_inv t" and "audioSource t = LoadingWebAudio \<longrightarrow> canUseWebAudio t"
  shows "nodes_inv (foldl (\<lambda>s e. track_transition now e s) t es)
       \<and> (audioSource (foldl (\<lambda>s e. track_transition now e s) t es) = LoadingWebAudio \<longrightarrow>
            canUseWebAudio (foldl (\<lambda>s e. track_transition now e s) t es))"
  using assms
proof (induction es arbitrary: t)
  case Nil
  then show ?case by simp
next
  case (Cons e es)
  show ?case
    using Cons.IH [OF pre_inv_track_transition [OF Cons.prems, of now e]] by simp
qed

lemma track_inv_track_send:
  assumes "track_inv t"
  shows "track_inv (track_send now ev t)"
proof -
  let ?t1 = "track_transition now ev t"
  have n: "nodes_inv t" and l: "audioSource t = LoadingWebAudio \<longrightarrow> canUseWebAudio t"
    and m: "mailbox t = []"
    using assms by (simp_all add: track_inv_def)
  have 1: "nodes_inv (?t1\<lparr>mailbox := []\<rparr>)"
    "audioSource (?t1\<lparr>mailbox := []\<rparr>) = LoadingWebAudio \<longrightarrow> canUseWebAudio (?t1\<lparr>mailbox := []\<rparr>)"
    using pre_inv_track_transition [OF n l, of now ev] by (simp_all add: canUseWebAudio_def)
  show ?thesis
    using pre_inv_flush [OF 1, of now "mailbox ?t1"] track_send_mailbox [OF m, of now ev]
    by (simp add: track_inv_def track_send_def Let_def)
qed

lemma track_inv_spawnTrack:
  "track_inv (spawnTrack r url i vol disabled cbProgress cbEnded cbLoaded cbTrackEnded)"
  by (simp add: track_inv_def nodes_inv_def spawnTrack_def)

lemma track_inv_track_run:
  "track_inv t \<Longrightarrow> track_inv (track_run evs t)"
  unfolding track_run_def
  by (induction evs arbitrary: t) (auto simp: track_inv_track_send)

subsection \<open>Buffer sources are discarded and created afresh\<close>

lemma track_inv_node_facts:
  assumes "track_inv t" and "bufferSourceNode t = Some n"
  shows "audioBuffer t \<noteq> None" and "\<not> webAudioIsDisabled t" and "audioContext t"
    and "mailbox t = []" and "n < length (nodes t)" and "isUsingWebAudio t"
  using assms by (auto simp: track_inv_def nodes_inv_def isUsingWebAudio_def)

lemma seek_discards_and_recreates:
  assumes "track_inv t" and "bufferSourceNode t = Some n"
  shows "nodes (track_send now (T_SEEK x) t) =
           (nodes t)[n := nodes t ! n @ [ClearOnended, Stop, Disconnect]]
             @ [[SetBuffer, Connect, SetOnended, Start (max 0 x)]]"
    and "bufferSourceNode (track_send now (T_SEEK x) t) = Some (length (nodes t))"
proof -
  note f = track_inv_node_facts [OF assms]
  have tr: "track_transition now (T_SEEK x) t = seekWebAudio now (T_SEEK x) t"
    using f(6)
    by (simp add: track_transition_one_region playback_region_def split: playback.splits)
  have sd: "track_send now (T_SEEK x) t = (seekWebAudio now (T_SEEK x) t)\<lparr>mailbox := []\<rparr>"
    using f(4) by (simp add: track_send_def tr Let_def)
  show "nodes (track_send now (T_SEEK x) t) =
           (nodes t)[n := nodes t ! n @ [ClearOnended, Stop, Disconnect]]
             @ [[SetBuffer, Connect, SetOnended, Start (max 0 x)]]"
    using assms(2) f(1,3)
    by (auto simp: sd seekWebAudio_def createAndStartBufferSource_def stopNode_def Let_def
          split: option.splits)
  show "bufferSourceNode (track_send now (T_SEEK x) t) = Some (length (nodes t))"
    using assms(2) f(1,3)
    by (auto simp: sd seekWebAudio_def createAndStartBufferSource_def stopNode_def Let_def
          split: option.splits)
qed

lemma pause_discards:
  assumes "track_inv t" and "bufferSourceNode t = Some n" and "playback t = Playing"
  shows "nodes (track_send now T_PAUSE t) =
           (nodes t)[n := nodes t ! n @ [ClearOnended, Stop, Disconnect]]"
    and "bufferSourceNode (track_send now T_PAUSE t) = None"
    and "playback (track_send now T_PAUSE t) = Paused"
    and "isUsingWebAudio (track_send now T_PAUSE t)"
proof -
  note f = track_inv_node_facts [OF assms(1,2)]
  have tr: "track_transition now T_PAUSE t =
      (stopProgressTracking (pausePlayback now t))\<lparr>playback := Paused\<rparr>"
    using assms(3)
    by (simp add: track_transition_one_region playback_region_def)
  have sd: "track_send now T_PAUSE t =
      (stopProgressTracking (pausePlayback now t))\<lparr>playback := Paused, mailbox := []\<rparr>"
    using f(4) by (simp add: track_send_def tr Let_def)
  show "nodes (track_send now T_PAUSE t) =
           (nodes t)[n := nodes t ! n @ [ClearOnended, Stop, Disconnect]]"
    using assms(2) f(3)
    by (simp add: sd stopProgressTracking_def pausePlayback_def stopNode_def)
  show "bufferSourceNode (track_send now T_PAUSE t) = None"
    using assms(2) f(3)
    by (simp add: sd stopProgressTracking_def pausePlayback_def stopNode_def)
  show "playback (track_send now T_PAUSE t) = Paused"
    by (simp add: sd)
  show "isUsingWebAudio (track_send now T_PAUSE t)"
    using f(1,2) by (simp add: sd isUsingWebAudio_def)
qed

lemma self_sent_keep_nodes:
  assumes "ev \<in> {T_LOAD_WEBAUDIO, T_SWITCH_TO_WEBAUDIO}" and "audioSource t \<noteq> Html \<or> audioBuffer t = None"
  shows "nodes (track_transition now ev t) = nodes t"
    and "bufferSourceNode (track_transition now ev t) = bufferSourceNode t"
    and "playback (track_transition now ev t) = playback t"
  using assms
  by (auto simp: track_transition_one_region audioSource_region_def
        startLoadingWebAudio_def hasWebAudioBuffer_def canUseWebAudio_def
        split: audio_source.splits)

lemma resume_creates_fresh:
  assumes "track_inv t" and "playback t = Paused" and "isUsingWebAudio t"
  shows "nodes (track_send now T_PLAY t) =
           nodes t @ [[SetBuffer, Connect, SetOnended, Start (max 0 (currentTime t))]]"
    and "bufferSourceNode (track_send now T_PLAY t) = Some (length (nodes t))"
    and "playback (track_send now T_PLAY t) = Playing"
proof -
  have m: "mailbox t = []" and c: "audioContext t"
    using assms(1) by (simp_all add: track_inv_def nodes_inv_def)
  have tr: "track_transition now T_PLAY t =
      (startProgressTracking (resumeWebAudio now t))\<lparr>playback := Playing\<rparr>"
    using assms(2,3)
    by (simp add: track_transition_one_region playback_region_def)
  have sd: "track_send now T_PLAY t =
      (startProgressTracking (resumeWebAudio now t))\<lparr>playback := Playing, mailbox := []\<rparr>"
    using m by (simp add: track_send_def tr Let_def)
  show "nodes (track_send now T_PLAY t) =
           nodes t @ [[SetBuffer, Connect, SetOnended, Start (max 0 (currentTime t))]]"
    using assms(3) c
    by (simp add: sd startProgressTracking_def resumeWebAudio_def
          createAndStartBufferSource_def isUsingWebAudio_def Let_def)
  show "bufferSourceNode (track_send now T_PLAY t) = Some (length (nodes t))"
    using assms(3) c
    by (auto simp: sd startProgressTracking_def resumeWebAudio_def
          createAndStartBufferSource_def isUsingWebAudio_def Let_def)
  show "playback (track_send now T_PLAY t) = Playing"
    by (simp add: sd)
qed

lemma handoff_starts_fresh:
  assumes "track_inv t" and "audioSource t = LoadingWebAudio"
  shows "bufferSourceNode t = None"
    and "(nodes (track_send now (T_WEBAUDIO_LOADED b) t) = nodes t
          \<and> bufferSourceNode (track_send now (T_WEBAUDIO_LOADED b) t) = None)
       \<or> (\<exists>p. nodes (track_send now (T_WEBAUDIO_LOADED b) t) =
                 nodes t @ [[SetBuffer, Connect, SetOnended, Start p]]
             \<and> bufferSourceNode (track_send now (T_WEBAUDIO_LOADED b) t) = Some (length (nodes t)))"
proof -
  have cu: "canUseWebAudio t" and m: "mailbox t = []" and ni: "nodes_inv t"
    using assms by (simp_all add: track_inv_def)
  show none: "bufferSourceNode t = None"
    using cu ni by (simp add: canUseWebAudio_def nodes_inv_def)
  let ?t1 = "setupWebAudio now ((storeWebAudioBuffer (T_WEBAUDIO_LOADED b) t)\<lparr>audioSource := Webaudio\<rparr>)"
  have tr: "track_transition now (T_WEBAUDIO_LOADED b) t = ?t1"
    using assms(2)
    by (simp add: track_transition_one_region audioSource_region_def)
  have sd: "track_send now (T_WEBAUDIO_LOADED b) t = ?t1\<lparr>mailbox := []\<rparr>"
    using m by (simp add: track_send_def tr Let_def)
  show "(nodes (track_send now (T_WEBAUDIO_LOADED b) t) = nodes t
          \<and> bufferSourceNode (track_send now (T_WEBAUDIO_LOADED b) t) = None)
       \<or> (\<exists>p. nodes (track_send now (T_WEBAUDIO_LOADED b) t) =
                 nodes t @ [[SetBuffer, Connect, SetOnended, Start p]]
             \<and> bufferSourceNode (track_send now (T_WEBAUDIO_LOADED b) t) = Some (length (nodes t)))"
    using none
    by (auto simp: sd setupWebAudio_def storeWebAudioBuffer_def createAndStartBufferSource_def
          Let_def split: option.splits)
qed

subsection \<open>Deactivating and playing a track\<close>




subsection \<open>The end of the audio\<close>

lemma mailbox_reset: "mailbox t = [] \<Longrightarrow> t\<lparr>mailbox := []\<rparr> = t"
  by (cases t) simp

lemma track_send_ENDED:
  assumes "mailbox t = []"
  shows "playback t = Playing \<Longrightarrow>
           track_send now T_ENDED t = (stopProgressTracking (handleEnded t))\<lparr>playback := Paused\<rparr>"
    and "playback t = Paused \<Longrightarrow> track_send now T_ENDED t = t"
  using assms
  by (simp_all add: track_send_def track_transition_one_region playback_region_def Let_def
        mailbox_reset)

lemma effects_handleEnded:
  "effects (handleEnded t) =
     effects t @ (if onTrackEnded t then [CallOnTrackEnded (idx t)] else [])
               @ (if onEnded t then [CallOnEnded] else [])"
  by (simp add: handleEnded_def Let_def)

lemma effects_track_send_ENDED:
  assumes "mailbox t = []" and "playback t = Playing"
  shows "effects (track_send now T_ENDED t) =
     effects t @ (if onTrackEnded t then [CallOnTrackEnded (idx t)] else [])
               @ (if onEnded t then [CallOnEnded] else [])"
  using assms by (simp add: track_send_ENDED effects_handleEnded stopProgressTracking_def)

section \<open>Facts about the queue machine\<close>

subsection \<open>Sending to an actor\<close>

lemma sendTo_frame [simp]:
  "qstate (sendTo now i ev q) = qstate q"
  "tracks (sendTo now i ev q) = tracks q"
  "currentTrackIdx (sendTo now i ev q) = currentTrackIdx q"
  "q_volume (sendTo now i ev q) = q_volume q"
  "q_webAudioIsDisabled (sendTo now i ev q) = q_webAudioIsDisabled q"
  "q_onProgress (sendTo now i ev q) = q_onProgress q"
  "q_onEnded (sendTo now i ev q) = q_onEnded q"
  "onPlayNextTrack (sendTo now i ev q) = onPlayNextTrack q"
  "onPlayPreviousTrack (sendTo now i ev q) = onPlayPreviousTrack q"
  "onStartNewTrack (sendTo now i ev q) = onStartNewTrack q"
  "q_mailbox (sendTo now i ev q) = q_mailbox q"
  "nextRef (sendTo now i ev q) = nextRef q"
  "length (trackActors (sendTo now i ev q)) = length (trackActors q)"
  by (simp_all add: sendTo_def split: option.splits)

lemma trackActors_sendTo:
  "trackActors (sendTo now i ev q) =
     (if 0 \<le> i \<and> i < int (length (trackActors q))
      then (trackActors q)[nat i := track_send now ev (trackActors q ! nat i)]
      else trackActors q)"
  by (simp add: sendTo_def actorAt_def)

lemma q_effects_sendTo:
  "q_effects (sendTo now i ev q) =
     q_effects q @ (case actorAt (trackActors q) i of None \<Rightarrow> [] | Some a \<Rightarrow> [Sent (ref a) ev])"
  by (simp add: sendTo_def split: option.splits)

lemma map_ref_sendTo [simp]:
  "map ref (trackActors (sendTo now i ev q)) = map ref (trackActors q)"
  by (simp add: trackActors_sendTo map_update) (metis list_update_id map_update)

lemma ref_actorAt:
  "map_option ref (actorAt actors i) =
     (if 0 \<le> i \<and> i < int (length actors) then Some (map ref actors ! nat i) else None)"
  by (simp add: actorAt_def nat_less_iff)

lemmas track_machine_defs =
  track_send_def track_transition_def audioSource_region_def playback_region_def
  canUseWebAudio_def hasWebAudioBuffer_def isUsingWebAudio_def spawnTrack_def newAudio_def

subsection \<open>Queue actions: what they leave alone\<close>

lemma pauseAllTracks_frame [simp]:
  "qstate (pauseAllTracks now q) = qstate q"
  "currentTrackIdx (pauseAllTracks now q) = currentTrackIdx q"
  "q_mailbox (pauseAllTracks now q) = q_mailbox q"
  "q_onEnded (pauseAllTracks now q) = q_onEnded q"
  "onStartNewTrack (pauseAllTracks now q) = onStartNewTrack q"
  "length (trackActors (pauseAllTracks now q)) = length (trackActors q)"
  "map ref (trackActors (pauseAllTracks now q)) = map ref (trackActors q)"
  by (simp_all add: pauseAllTracks_def)

lemma updateCurrentTrackIdx_frame [simp]:
  "qstate (updateCurrentTrackIdx ev q) = qstate q"
  "q_mailbox (updateCurrentTrackIdx ev q) = q_mailbox q"
  "trackActors (updateCurrentTrackIdx ev q) = trackActors q"
  "q_effects (updateCurrentTrackIdx ev q) = q_effects q"
  "onStartNewTrack (updateCurrentTrackIdx ev q) = onStartNewTrack q"
  "currentTrackIdx (updateCurrentTrackIdx (Q_GOTO i p) q) = i"
  by (simp_all add: updateCurrentTrackIdx_def)

lemma notifyStartNewTrack_frame [simp]:
  "qstate (notifyStartNewTrack q) = qstate q"
  "currentTrackIdx (notifyStartNewTrack q) = currentTrackIdx q"
  "q_mailbox (notifyStartNewTrack q) = q_mailbox q"
  "trackActors (notifyStartNewTrack q) = trackActors q"
  by (simp_all add: notifyStartNewTrack_def)

lemma notifyEnded_frame [simp]:
  "qstate (notifyEnded q) = qstate q"
  "currentTrackIdx (notifyEnded q) = currentTrackIdx q"
  "q_mailbox (notifyEnded q) = q_mailbox q"
  "trackActors (notifyEnded q) = trackActors q"
  "q_effects (notifyEnded q) = q_effects q @ (if q_onEnded q then [CallQueueOnEnded] else [])"
  by (simp_all add: notifyEnded_def)

lemma SET_VOLUME_transition:
  "queue_transition now (Q_SET_VOLUME v) q = q\<lparr>q_volume := max 0 (min 1 v)\<rparr>"
  by (simp add: queue_transition_def setVolume_queue_def split: queue_state.splits)


subsection \<open>Between two commands nothing is pending\<close>

lemma tracks_idle_cong [simp]:
  "tracks_idle (q\<lparr>qstate := s\<rparr>) = tracks_idle q"
  "tracks_idle (q\<lparr>q_mailbox := m\<rparr>) = tracks_idle q"
  "tracks_idle (q\<lparr>q_effects := e\<rparr>) = tracks_idle q"
  "tracks_idle (q\<lparr>currentTrackIdx := i\<rparr>) = tracks_idle q"
  "tracks_idle (q\<lparr>q_volume := v\<rparr>) = tracks_idle q"
  by (simp_all add: tracks_idle_def)

lemma tracks_idle_sendTo: "tracks_idle q \<Longrightarrow> tracks_idle (sendTo now i ev q)"
  by (auto simp: tracks_idle_def trackActors_sendTo list_all_length nth_list_update
        track_send_mailbox)

lemma tracks_idle_actions:
  assumes "tracks_idle q"
  shows "tracks_idle (activateCurrentTrack now q)"
    and "tracks_idle (playCurrentTrack now q)"
    and "tracks_idle (pauseCurrentTrack now q)"
    and "tracks_idle (pauseAllTracks now q)"
    and "tracks_idle (seekCurrentTrackToStart now q)"
    and "tracks_idle (seekCurrentTrack now ev q)"
    and "tracks_idle (updateCurrentTrackIdx ev q)"
    and "tracks_idle (playNext now q)"
    and "tracks_idle (autoAdvanceToNext now q)"
    and "tracks_idle (gotoNext now q)"
    and "tracks_idle (playPrevious now q)"
    and "tracks_idle (gotoPrevious now q)"
    and "tracks_idle (resetToFirstTrack q)"
    and "tracks_idle (setVolume_queue ev q)"
    and "tracks_idle (loadCurrentTrack now q)"
    and "tracks_idle (handleTrackLoaded now ev q)"
    and "tracks_idle (addTrack ev q)"
    and "tracks_idle (removeTrack ev q)"
    and "tracks_idle (notifyStartNewTrack q)"
    and "tracks_idle (notifyEnded q)"
proof -
  note s = tracks_idle_sendTo
  show "tracks_idle (activateCurrentTrack now q)" "tracks_idle (playCurrentTrack now q)"
    "tracks_idle (pauseCurrentTrack now q)" "tracks_idle (seekCurrentTrackToStart now q)"
    "tracks_idle (loadCurrentTrack now q)"
    using assms
    by (simp_all add: activateCurrentTrack_def playCurrentTrack_def pauseCurrentTrack_def
          seekCurrentTrackToStart_def loadCurrentTrack_def s)
  show "tracks_idle (pauseAllTracks now q)"
    using assms by (simp add: pauseAllTracks_def tracks_idle_def list_all_iff track_send_mailbox)
  show "tracks_idle (seekCurrentTrack now ev q)"
    using assms by (cases ev) (simp_all add: seekCurrentTrack_def s)
  show "tracks_idle (updateCurrentTrackIdx ev q)" "tracks_idle (resetToFirstTrack q)"
    "tracks_idle (setVolume_queue ev q)" "tracks_idle (notifyStartNewTrack q)"
    "tracks_idle (notifyEnded q)"
    using assms
    by (simp_all add: updateCurrentTrackIdx_def resetToFirstTrack_def setVolume_queue_def
          notifyStartNewTrack_def notifyEnded_def)
  show "tracks_idle (playNext now q)" "tracks_idle (gotoNext now q)"
    "tracks_idle (playPrevious now q)" "tracks_idle (gotoPrevious now q)"
    using assms
    by (simp_all add: playNext_def gotoNext_def playPrevious_def gotoPrevious_def Let_def s)
  show "tracks_idle (autoAdvanceToNext now q)"
    using assms by (simp add: autoAdvanceToNext_def Let_def s)
  show "tracks_idle (handleTrackLoaded now ev q)"
    using assms by (cases ev) (simp_all add: handleTrackLoaded_def Let_def s)
  show "tracks_idle (addTrack ev q)"
    using assms by (cases ev) (simp_all add: addTrack_def tracks_idle_def spawnTrack_def)
  show "tracks_idle (removeTrack ev q)"
  proof (cases ev)
    case (Q_REMOVE_TRACK r)
    have "set (splice1 k (trackActors q)) \<subseteq> set (trackActors q)" for k
      using set_take_subset set_drop_subset by (fastforce simp: splice1_def)
    then show ?thesis
      using assms by (auto simp: Q_REMOVE_TRACK removeTrack_def Let_def tracks_idle_def list_all_iff)
  qed (simp_all add: removeTrack_def assms)
qed

lemma tracks_idle_queue_transition:
  "tracks_idle q \<Longrightarrow> tracks_idle (queue_transition now ev q)"
  by (cases "qstate q"; cases ev) (simp_all add: queue_transition_def tracks_idle_actions)

lemma tracks_idle_queue_send:
  assumes "tracks_idle q"
  shows "tracks_idle (queue_send now ev q)"
proof -
  have "tracks_idle q \<Longrightarrow> tracks_idle (foldl (\<lambda>s e. queue_transition now e s) q es)" for q es
    by (induction es arbitrary: q) (simp_all add: tracks_idle_queue_transition)
  then show ?thesis
    using assms by (simp add: queue_send_def Let_def tracks_idle_queue_transition)
qed

lemma q_mailbox_queue_transition:
  "\<exists>es. q_mailbox (queue_transition now ev q) = q_mailbox q @ es \<and> self_sent_queue es"
  by (cases "qstate q"; cases ev)
     (auto simp: queue_transition_def self_sent_queue_def Let_def
        playNext_def gotoNext_def playPrevious_def gotoPrevious_def autoAdvanceToNext_def
        pauseCurrentTrack_def playCurrentTrack_def activateCurrentTrack_def loadCurrentTrack_def
        seekCurrentTrackToStart_def seekCurrentTrack_def setVolume_queue_def addTrack_def
        removeTrack_def handleTrackLoaded_def resetToFirstTrack_def)

lemma q_mailbox_self_sent:
  "e = Q_PLAY \<or> e = Q_GOTO i False \<Longrightarrow> q_mailbox (queue_transition now e q) = q_mailbox q"
  by (cases "qstate q")
     (auto simp: queue_transition_def playCurrentTrack_def activateCurrentTrack_def
        loadCurrentTrack_def seekCurrentTrackToStart_def resetToFirstTrack_def)

lemma q_mailbox_flush:
  "self_sent_queue es \<Longrightarrow>
     q_mailbox (foldl (\<lambda>s e. queue_transition now e s) q es) = q_mailbox q"
proof (induction es arbitrary: q)
  case Nil
  then show ?case by simp
next
  case (Cons e es)
  then have "e = Q_PLAY \<or> (\<exists>i. e = Q_GOTO i False)" and es: "self_sent_queue es"
    by (auto simp: self_sent_queue_def)
  then have "q_mailbox (queue_transition now e q) = q_mailbox q"
    using q_mailbox_self_sent by blast
  with Cons.IH [OF es] show ?case by simp
qed

lemma queue_send_mailbox:
  assumes "q_mailbox q = []"
  shows "q_mailbox (queue_send now ev q) = []"
proof -
  obtain es where "q_mailbox (queue_transition now ev q) = q_mailbox q @ es" "self_sent_queue es"
    using q_mailbox_queue_transition by blast
  with assms show ?thesis
    by (simp add: queue_send_def Let_def q_mailbox_flush)
qed

lemma tracks_idle_spawnInitialTracks: "tracks_idle (spawnInitialTracks q)"
  by (auto simp: tracks_idle_def spawnInitialTracks_def list_all_iff spawnTrack_def)

lemma Gapless_new_idle:
  "q_mailbox (Gapless_new now urls disabled cbProgress cbEnded cbNext cbPrevious cbStart) = []"
  "tracks_idle (Gapless_new now urls disabled cbProgress cbEnded cbNext cbPrevious cbStart)"
proof -
  show "q_mailbox (Gapless_new now urls disabled cbProgress cbEnded cbNext cbPrevious cbStart) = []"
    by (simp add: Gapless_new_def loadCurrentTrack_def spawnInitialTracks_def)
  show "tracks_idle (Gapless_new now urls disabled cbProgress cbEnded cbNext cbPrevious cbStart)"
    unfolding Gapless_new_def loadCurrentTrack_def
    by (rule tracks_idle_sendTo) (rule tracks_idle_spawnInitialTracks)
qed

subsection \<open>The action of the auto-advance\<close>

lemma autoAdvanceToNext_frame [simp]:
  "qstate (autoAdvanceToNext now q) = qstate q"
  "q_mailbox (autoAdvanceToNext now q) = q_mailbox q"
  "length (trackActors (autoAdvanceToNext now q)) = length (trackActors q)"
  by (simp_all add: autoAdvanceToNext_def Let_def)


subsection \<open>A track reports its end\<close>


lemma deliver_ENDED_reports:
  assumes "actorAt (trackActors q) e = Some a" and "mailbox a = []"
    and "playback a = Playing" and "onTrackEnded a"
  shows "deliver_ENDED now e q =
           queue_send now Q_TRACK_ENDED
             (q\<lparr>trackActors := (trackActors q)[nat e := track_send now T_ENDED a]\<rparr>)"
  using assms by (simp add: deliver_ENDED_def Let_def effects_track_send_ENDED)

lemma deliver_ENDED_silent:
  assumes "actorAt (trackActors q) e = Some a" and "mailbox a = []"
    and "playback a = Paused"
  shows "deliver_ENDED now e q = q"
  using assms
  by (auto simp: deliver_ENDED_def Let_def track_send_ENDED actorAt_def split: if_splits)

text \<open>Nothing is pending after the event either.\<close>

lemma deliver_ENDED_idle:
  assumes "q_mailbox q = []" and "tracks_idle q"
  shows "q_mailbox (deliver_ENDED now i q) = []"
    and "tracks_idle (deliver_ENDED now i q)"
proof -
  have *: "q_mailbox (deliver_ENDED now i q) = [] \<and> tracks_idle (deliver_ENDED now i q)"
  proof (cases "actorAt (trackActors q) i")
    case None
    with assms show ?thesis
      by (simp add: deliver_ENDED_def)
  next
    case (Some a)
    define q1 where "q1 = q\<lparr>trackActors := (trackActors q)[nat i := track_send now T_ENDED a]\<rparr>"
    have "nat i < length (trackActors q)" "a = trackActors q ! nat i"
      using Some by (auto simp: actorAt_def split: if_splits)
    then have "mailbox a = []"
      using assms(2) by (simp add: tracks_idle_def list_all_length)
    then have "mailbox (track_send now T_ENDED a) = []"
      by (rule track_send_mailbox)
    then have i1: "tracks_idle q1"
      using assms(2) by (simp add: q1_def tracks_idle_def list_all_update)
    have m1: "q_mailbox q1 = []"
      using assms(1) by (simp add: q1_def)
    have "deliver_ENDED now i q = q1 \<or> deliver_ENDED now i q = queue_send now Q_TRACK_ENDED q1"
      using Some by (simp add: deliver_ENDED_def Let_def q1_def)
    then show ?thesis
      using i1 m1 queue_send_mailbox [OF m1] tracks_idle_queue_send [OF i1] by auto
  qed
  from * show "q_mailbox (deliver_ENDED now i q) = []" and "tracks_idle (deliver_ENDED now i q)"
    by simp_all
qed


lemma sum_list_map_update:
  "n < length xs \<Longrightarrow>
     sum_list (map f (xs[n := y])) + f (xs ! n) = sum_list (map f xs) + (f y :: nat)"
proof (induction xs arbitrary: n)
  case Nil
  then show ?case by simp
next
  case (Cons x xs)
  then show ?case
  proof (cases n)
    case 0
    then show ?thesis by simp
  next
    case (Suc m)
    with Cons.prems have "m < length xs" by simp
    from Cons.IH [OF this] Suc show ?thesis by simp
  qed
qed

section \<open>Properties of the track machine\<close>

subsection \<open>Buffer sources\<close>

text \<open>
  Claim C9. Take any run of a track: any events, in any order, at any clock readings,
  sent to a track as \<open>createTrackMachine\<close> starts it. In the state \<open>t\<close> it ends in:
  \<^item> on every buffer source the track has ever created, \<open>start\<close> has been called
    exactly once, no \<open>start\<close> follows a \<open>stop\<close>, and every \<open>stop\<close> comes directly
    after the end-of-track listener was detached;
  \<^item> a seek with a live handle tears that handle down (listener detached, stopped,
    disconnected) and creates and starts a node that did not exist before;
  \<^item> a pause with a live handle tears it down and leaves no handle, and the track can
    then resume on the precise backend;
  \<^item> a play on the precise backend from paused creates and starts a node that did not
    exist before;
  \<^item> while the pipeline is loading there is no handle, and the handoff at its success
    either creates no node or creates and starts one that did not exist before.
\<close>

theorem buffer_source_started_once:
  "(let t = track_run evs (spawnTrack r url i vol disabled cbProgress cbEnded cbLoaded cbTrackEnded)
    in (\<forall>ops \<in> set (nodes t). start_count ops = 1 \<and> never_restarted ops \<and> stops_detached ops)
     \<and> (\<forall>n. bufferSourceNode t = Some n \<longrightarrow>
            nodes (track_send now (T_SEEK x) t) =
              (nodes t)[n := nodes t ! n @ [ClearOnended, Stop, Disconnect]]
                @ [[SetBuffer, Connect, SetOnended, Start (max 0 x)]]
          \<and> bufferSourceNode (track_send now (T_SEEK x) t) = Some (length (nodes t)))
     \<and> (\<forall>n. bufferSourceNode t = Some n \<and> playback t = Playing \<longrightarrow>
            nodes (track_send now T_PAUSE t) =
              (nodes t)[n := nodes t ! n @ [ClearOnended, Stop, Disconnect]]
          \<and> bufferSourceNode (track_send now T_PAUSE t) = None
          \<and> playback (track_send now T_PAUSE t) = Paused
          \<and> isUsingWebAudio (track_send now T_PAUSE t))
     \<and> (playback t = Paused \<and> isUsingWebAudio t \<longrightarrow>
            nodes (track_send now T_PLAY t) =
              nodes t @ [[SetBuffer, Connect, SetOnended, Start (max 0 (currentTime t))]]
          \<and> bufferSourceNode (track_send now T_PLAY t) = Some (length (nodes t)))
     \<and> (audioSource t = LoadingWebAudio \<longrightarrow>
            bufferSourceNode t = None
          \<and> ((nodes (track_send now (T_WEBAUDIO_LOADED b) t) = nodes t
               \<and> bufferSourceNode (track_send now (T_WEBAUDIO_LOADED b) t) = None)
             \<or> (\<exists>p. nodes (track_send now (T_WEBAUDIO_LOADED b) t) =
                        nodes t @ [[SetBuffer, Connect, SetOnended, Start p]]
                    \<and> bufferSourceNode (track_send now (T_WEBAUDIO_LOADED b) t) =
                        Some (length (nodes t))))))"
proof -
  define t where
    "t = track_run evs (spawnTrack r url i vol disabled cbProgress cbEnded cbLoaded cbTrackEnded)"
  have inv: "track_inv t"
    unfolding t_def by (rule track_inv_track_run [OF track_inv_spawnTrack])
  have 1: "\<forall>ops \<in> set (nodes t). start_count ops = 1 \<and> never_restarted ops \<and> stops_detached ops"
    using inv created_then_torn_down_props
    by (auto simp: track_inv_def nodes_inv_def list_all_iff)
  have 2: "\<forall>n. bufferSourceNode t = Some n \<longrightarrow>
            nodes (track_send now (T_SEEK x) t) =
              (nodes t)[n := nodes t ! n @ [ClearOnended, Stop, Disconnect]]
                @ [[SetBuffer, Connect, SetOnended, Start (max 0 x)]]
          \<and> bufferSourceNode (track_send now (T_SEEK x) t) = Some (length (nodes t))"
    using seek_discards_and_recreates [OF inv] by blast
  have 3: "\<forall>n. bufferSourceNode t = Some n \<and> playback t = Playing \<longrightarrow>
            nodes (track_send now T_PAUSE t) =
              (nodes t)[n := nodes t ! n @ [ClearOnended, Stop, Disconnect]]
          \<and> bufferSourceNode (track_send now T_PAUSE t) = None
          \<and> playback (track_send now T_PAUSE t) = Paused
          \<and> isUsingWebAudio (track_send now T_PAUSE t)"
    using pause_discards [OF inv] by blast
  have 4: "playback t = Paused \<and> isUsingWebAudio t \<longrightarrow>
            nodes (track_send now T_PLAY t) =
              nodes t @ [[SetBuffer, Connect, SetOnended, Start (max 0 (currentTime t))]]
          \<and> bufferSourceNode (track_send now T_PLAY t) = Some (length (nodes t))"
    using resume_creates_fresh [OF inv] by blast
  have 5: "audioSource t = LoadingWebAudio \<longrightarrow>
            bufferSourceNode t = None
          \<and> ((nodes (track_send now (T_WEBAUDIO_LOADED b) t) = nodes t
               \<and> bufferSourceNode (track_send now (T_WEBAUDIO_LOADED b) t) = None)
             \<or> (\<exists>p. nodes (track_send now (T_WEBAUDIO_LOADED b) t) =
                        nodes t @ [[SetBuffer, Connect, SetOnended, Start p]]
                    \<and> bufferSourceNode (track_send now (T_WEBAUDIO_LOADED b) t) =
                        Some (length (nodes t))))"
    using handoff_starts_fresh [OF inv] by blast
  show ?thesis
    unfolding Let_def t_def [symmetric] using 1 2 3 4 5 by blast
qed

text \<open>
  A track that plays, receives its buffer, seeks, pauses and resumes: three buffer
  sources, two of them torn down.
\<close>

theorem buffer_source_started_once_witness:
  "(let t = track_run [(0, T_ACTIVATE), (0, T_PLAY), (1, T_WEBAUDIO_LOADED (AudioBuffer 100)),
                       (2, T_SEEK 30), (3, T_PAUSE), (4, T_PLAY)]
              (spawnTrack 0 ''a'' 0 1 False False False False False)
    in nodes t =
         [[SetBuffer, Connect, SetOnended, Start 0, ClearOnended, Stop, Disconnect],
          [SetBuffer, Connect, SetOnended, Start 30, ClearOnended, Stop, Disconnect],
          [SetBuffer, Connect, SetOnended, Start 31]]
     \<and> bufferSourceNode t = Some 2 \<and> playback t = Playing
     \<and> (\<forall>ops \<in> set (nodes t). start_count ops = 1 \<and> never_restarted ops \<and> stops_detached ops)
     \<and> bufferSourceNode (track_send 5 (T_SEEK 7) t) = Some 3
     \<and> nodes (track_send 5 T_PAUSE t) ! 2 =
         [SetBuffer, Connect, SetOnended, Start 31, ClearOnended, Stop, Disconnect])
   \<and>
   (let t = track_run [(0, T_ACTIVATE), (0, T_PLAY), (1, T_WEBAUDIO_LOADED (AudioBuffer 100)),
                       (2, T_PAUSE)]
              (spawnTrack 0 ''a'' 0 1 False False False False False)
    in playback t = Paused \<and> isUsingWebAudio t
     \<and> bufferSourceNode (track_send 3 T_PLAY t) = Some 1)
   \<and>
   (let t = track_run [(0, T_ACTIVATE), (0, T_PLAY)]
              (spawnTrack 0 ''a'' 0 1 False False False False False)
    in audioSource t = LoadingWebAudio \<and> bufferSourceNode t = None)"
proof -
  let ?s = "spawnTrack 0 ''a'' 0 1 False False False False False"
  let ?e1 = "[(0, T_ACTIVATE), (0, T_PLAY), (1, T_WEBAUDIO_LOADED (AudioBuffer 100)),
              (2, T_SEEK 30), (3, T_PAUSE), (4::real, T_PLAY)]"
  let ?e2 = "[(0, T_ACTIVATE), (0, T_PLAY), (1, T_WEBAUDIO_LOADED (AudioBuffer 100)),
              (2::real, T_PAUSE)]"
  let ?e3 = "[(0, T_ACTIVATE), (0::real, T_PLAY)]"
  have n1: "nodes (track_run ?e1 ?s) =
         [[SetBuffer, Connect, SetOnended, Start 0, ClearOnended, Stop, Disconnect],
          [SetBuffer, Connect, SetOnended, Start 30, ClearOnended, Stop, Disconnect],
          [SetBuffer, Connect, SetOnended, Start 31]]"
    by code_simp
  have b1: "bufferSourceNode (track_run ?e1 ?s) = Some 2" "playback (track_run ?e1 ?s) = Playing"
    by code_simp+
  have p2: "playback (track_run ?e2 ?s) = Paused" "isUsingWebAudio (track_run ?e2 ?s)"
    "length (nodes (track_run ?e2 ?s)) = 1"
    by code_simp+
  have l3: "audioSource (track_run ?e3 ?s) = LoadingWebAudio"
    by code_simp
  note w1 = buffer_source_started_once [of ?e1 0 "''a''" 0 1 False False False False False 5 7,
      unfolded Let_def]
  note w2 = buffer_source_started_once [of ?e2 0 "''a''" 0 1 False False False False False 3,
      unfolded Let_def]
  note w3 = buffer_source_started_once [of ?e3 0 "''a''" 0 1 False False False False False,
      unfolded Let_def]
  have a: "\<forall>ops \<in> set (nodes (track_run ?e1 ?s)).
      start_count ops = 1 \<and> never_restarted ops \<and> stops_detached ops"
    using w1 by blast
  have b: "bufferSourceNode (track_send 5 (T_SEEK 7) (track_run ?e1 ?s)) = Some 3"
    using w1 b1 n1 by simp
  have c: "nodes (track_send 5 T_PAUSE (track_run ?e1 ?s)) ! 2 =
         [SetBuffer, Connect, SetOnended, Start 31, ClearOnended, Stop, Disconnect]"
    using w1 b1 n1 by simp
  have d: "bufferSourceNode (track_send 3 T_PLAY (track_run ?e2 ?s)) = Some 1"
    using w2 p2 by simp
  have e: "bufferSourceNode (track_run ?e3 ?s) = None"
    using w3 l3 by blast
  show ?thesis
    unfolding Let_def using n1 b1 a b c p2(1,2) d l3 e by blast
qed

subsection \<open>Failure of the load pipeline\<close>

lemma WEBAUDIO_ERROR_send:
  assumes "audioSource t = LoadingWebAudio" and "mailbox t = []"
  shows "track_send now (T_WEBAUDIO_ERROR err) t =
           t\<lparr>audioSource := Html, effects := effects t @ [ConsoleError err]\<rparr>"
  using assms
  by (simp add: track_send_def track_transition_one_region audioSource_region_def
        logWebAudioError_def Let_def)

lemma LOAD_WEBAUDIO_send:
  assumes "audioSource t = Html" and "mailbox t = []" and "canUseWebAudio t"
  shows "track_send now T_LOAD_WEBAUDIO t =
           t\<lparr>audioSource := LoadingWebAudio,
             effects := effects t @ (if trackUrl t = [] then [] else [Fetch (trackUrl t)])\<rparr>"
  using assms
  by (simp add: track_send_def track_transition_one_region audioSource_region_def
        startLoadingWebAudio_def canUseWebAudio_def Let_def)

text \<open>
  Claim C8. Take any run of a track that ends with the backend region in
  loadingWebAudio. A failed pipeline (outcome \<open>Inl err\<close>) reaches the machine as
  the event \<open>WEBAUDIO_ERROR\<close> and as nothing else. Sending it puts the backend region
  back in html and logs the error to the console; every other part of the snapshot,
  the playback region included, is as before. The guard \<open>canUseWebAudio\<close> still holds
  then, so that a later \<open>LOAD_WEBAUDIO\<close> enters loadingWebAudio again and, for a track
  with a URL, starts the fetch again.
\<close>

theorem load_failure_returns_to_streaming:
  "(let t = track_run evs (spawnTrack r url i vol disabled cbProgress cbEnded cbLoaded cbTrackEnded)
    in audioSource t = LoadingWebAudio \<longrightarrow>
         pipeline_event (Inl err) = T_WEBAUDIO_ERROR err
       \<and> track_send now (pipeline_event (Inl err)) t =
           t\<lparr>audioSource := Html, effects := effects t @ [ConsoleError err]\<rparr>
       \<and> canUseWebAudio (track_send now (pipeline_event (Inl err)) t)
       \<and> track_send now' T_LOAD_WEBAUDIO (track_send now (pipeline_event (Inl err)) t) =
           t\<lparr>audioSource := LoadingWebAudio,
             effects := effects t @ [ConsoleError err]
                          @ (if trackUrl t = [] then [] else [Fetch (trackUrl t)])\<rparr>)"
proof -
  define t where
    "t = track_run evs (spawnTrack r url i vol disabled cbProgress cbEnded cbLoaded cbTrackEnded)"
  have inv: "track_inv t"
    unfolding t_def by (rule track_inv_track_run [OF track_inv_spawnTrack])
  have "pipeline_event (Inl err) = T_WEBAUDIO_ERROR err
       \<and> track_send now (pipeline_event (Inl err)) t =
           t\<lparr>audioSource := Html, effects := effects t @ [ConsoleError err]\<rparr>
       \<and> canUseWebAudio (track_send now (pipeline_event (Inl err)) t)
       \<and> track_send now' T_LOAD_WEBAUDIO (track_send now (pipeline_event (Inl err)) t) =
           t\<lparr>audioSource := LoadingWebAudio,
             effects := effects t @ [ConsoleError err]
                          @ (if trackUrl t = [] then [] else [Fetch (trackUrl t)])\<rparr>"
    if l: "audioSource t = LoadingWebAudio"
  proof -
    have m: "mailbox t = []" and c: "canUseWebAudio t"
      using inv l by (simp_all add: track_inv_def)
    have pe: "pipeline_event (Inl err) = T_WEBAUDIO_ERROR err"
      by (simp add: pipeline_event_def)
    let ?t' = "t\<lparr>audioSource := Html, effects := effects t @ [ConsoleError err]\<rparr>"
    have e: "track_send now (T_WEBAUDIO_ERROR err) t = ?t'"
      by (rule WEBAUDIO_ERROR_send [OF l m])
    have c': "canUseWebAudio ?t'"
      using c by (simp add: canUseWebAudio_def)
    have "track_send now' T_LOAD_WEBAUDIO ?t' =
        ?t'\<lparr>audioSource := LoadingWebAudio,
            effects := effects ?t' @ (if trackUrl ?t' = [] then [] else [Fetch (trackUrl ?t')])\<rparr>"
      by (rule LOAD_WEBAUDIO_send) (use m c' in simp_all)
    then have "track_send now' T_LOAD_WEBAUDIO ?t' =
        t\<lparr>audioSource := LoadingWebAudio,
          effects := effects t @ [ConsoleError err]
                       @ (if trackUrl t = [] then [] else [Fetch (trackUrl t)])\<rparr>"
      by simp
    with pe e c' show ?thesis
      by simp
  qed
  then show ?thesis
    unfolding Let_def t_def [symmetric] by blast
qed

text \<open>A track that started playing on the streaming backend and whose decode fails.\<close>

theorem load_failure_returns_to_streaming_witness:
  "(let t = track_run [(0, T_ACTIVATE), (0, T_PLAY)]
              (spawnTrack 0 ''a'' 0 1 False False False False False);
        t' = track_send 1 (pipeline_event (Inl ''decode'')) t
    in audioSource t = LoadingWebAudio
     \<and> playback t = Playing
     \<and> audioSource t' = Html
     \<and> playback t' = Playing
     \<and> effects t' = [Fetch ''a'', ConsoleError ''decode'']
     \<and> audioSource (track_send 2 T_LOAD_WEBAUDIO t') = LoadingWebAudio
     \<and> effects (track_send 2 T_LOAD_WEBAUDIO t') = [Fetch ''a'', ConsoleError ''decode'', Fetch ''a''])"
proof -
  let ?t = "track_run [(0, T_ACTIVATE), (0::real, T_PLAY)]
              (spawnTrack 0 ''a'' 0 1 False False False False False)"
  have h: "audioSource ?t = LoadingWebAudio"
    by code_simp
  have c: "playback ?t = Playing" "effects ?t = [Fetch ''a'']" "trackUrl ?t = ''a''"
    by code_simp+
  note w = load_failure_returns_to_streaming
    [of "[(0, T_ACTIVATE), (0, T_PLAY)]" 0 "''a''" 0 1 False False False False False
        "''decode''" 1 2, unfolded Let_def, rule_format, OF h]
  from w have e1: "track_send 1 (pipeline_event (Inl ''decode'')) ?t =
      ?t\<lparr>audioSource := Html, effects := effects ?t @ [ConsoleError ''decode'']\<rparr>"
    and e2: "track_send 2 T_LOAD_WEBAUDIO (track_send 1 (pipeline_event (Inl ''decode'')) ?t) =
      ?t\<lparr>audioSource := LoadingWebAudio,
         effects := effects ?t @ [ConsoleError ''decode'']
                      @ (if trackUrl ?t = [] then [] else [Fetch (trackUrl ?t)])\<rparr>"
    by blast+
  define t' where "t' = track_send 1 (pipeline_event (Inl ''decode'')) ?t"
  have f1: "audioSource t' = Html" "playback t' = Playing"
    "effects t' = [Fetch ''a'', ConsoleError ''decode'']"
    using c by (simp_all add: t'_def e1)
  have f2: "audioSource (track_send 2 T_LOAD_WEBAUDIO t') = LoadingWebAudio"
    "effects (track_send 2 T_LOAD_WEBAUDIO t') = [Fetch ''a'', ConsoleError ''decode'', Fetch ''a'']"
    using c by (simp_all add: t'_def e2)
  show ?thesis
    unfolding Let_def t'_def [symmetric] using h c f1 f2 by simp
qed

subsection \<open>Seeking\<close>


text \<open>
  Claim C4. What the code does with a seek to 150 seconds on a track whose duration is
  100 seconds. On the precise backend, playing: the stored position becomes 150, the new
  buffer source is started at offset 150, and the next progress tick reports 151. On the
  precise backend, paused: the stored position becomes 150. On the streaming backend
  (Web Audio disabled, the element having reported its duration): the code assigns 150
  to the element's \<open>currentTime\<close> and stores 150 as the position. In each case the
  position the track holds exceeds its duration; only the lower bound 0 is applied
  (\<open>Math.max(0, event.time)\<close>; lemma \<open>seek_stores_target\<close>).
\<close>

theorem seek_beyond_duration_is_not_clamped:
  "(let t = track_run [(0, T_ACTIVATE), (0, T_PLAY), (1, T_WEBAUDIO_LOADED (AudioBuffer 100)),
                       (2, T_PROGRESS), (3, T_SEEK 150)]
              (spawnTrack 0 ''a'' 0 1 False False False False False)
    in audioSource t = Webaudio \<and> playback t = Playing
     \<and> duration t = 100 \<and> currentTime t = 150
     \<and> nodes t ! 1 = [SetBuffer, Connect, SetOnended, Start 150]
     \<and> currentTime (track_send 4 T_PROGRESS t) = 151)
   \<and>
   (let t = track_run [(0, T_ACTIVATE), (0, T_PLAY), (1, T_WEBAUDIO_LOADED (AudioBuffer 100)),
                       (2, T_PROGRESS), (3, T_PAUSE), (4, T_SEEK 150)]
              (spawnTrack 0 ''a'' 0 1 False False False False False)
    in audioSource t = Webaudio \<and> playback t = Paused
     \<and> duration t = 100 \<and> currentTime t = 150)
   \<and>
   (let t0 = track_run [(0, T_ACTIVATE), (0, T_PLAY)]
               (spawnTrack 0 ''a'' 0 1 True False False False False);
        t1 = t0\<lparr>audio := map_option (\<lambda>a. a\<lparr>a_duration := 100\<rparr>) (audio t0)\<rparr>;
        t = track_run [(1, T_PROGRESS), (2, T_SEEK 150)] t1
    in audioSource t = Html \<and> playback t = Playing
     \<and> duration t = 100 \<and> currentTime t = 150
     \<and> map_option a_currentTime (audio t) = Some 150)"
  by code_simp

section \<open>Properties of the queue machine\<close>

subsection \<open>Events that keep the state\<close>

text \<open>
  Claim C10. In each of the three queue states, processing a \<open>SET_VOLUME\<close>,
  \<open>ADD_TRACK\<close>, \<open>REMOVE_TRACK\<close> or \<open>TRACK_LOADED\<close> event leaves the state of the
  queue as it was: the transition has no target, and it sends the queue no further
  event, so that the whole \<open>send\<close> from outside ends in the state it started in.
\<close>

theorem bookkeeping_events_keep_queue_state:
  assumes "ev \<in> {Q_SET_VOLUME v, Q_ADD_TRACK url, Q_REMOVE_TRACK r, Q_TRACK_LOADED i}"
  shows "qstate (queue_transition now ev q) = qstate q
       \<and> q_mailbox (queue_transition now ev q) = q_mailbox q
       \<and> (q_mailbox q = [] \<longrightarrow> qstate (queue_send now ev q) = qstate q)"
proof -
  have st: "qstate (queue_transition now ev q) = qstate q"
    using assms
    by (auto simp: queue_transition_def setVolume_queue_def addTrack_def removeTrack_def
          handleTrackLoaded_def Let_def split: queue_state.splits)
  have mb: "q_mailbox (queue_transition now ev q) = q_mailbox q"
    using assms
    by (auto simp: queue_transition_def setVolume_queue_def addTrack_def removeTrack_def
          handleTrackLoaded_def Let_def split: queue_state.splits)
  show ?thesis
    using st mb by (simp add: queue_send_def Let_def)
qed

theorem bookkeeping_events_keep_queue_state_witness:
  "Q_SET_VOLUME (1/2) \<in> {Q_SET_VOLUME (1/2), Q_ADD_TRACK ''b'', Q_REMOVE_TRACK 0, Q_TRACK_LOADED 0}
   \<and> qstate (queue_transition 1 (Q_SET_VOLUME (1/2))
        (Gapless_play 0 (Gapless_new 0 [''a''] False False False False False False))) = QPlaying"
proof -
  have "qstate (Gapless_play 0 (Gapless_new 0 [''a''] False False False False False False)) = QPlaying"
    by code_simp
  then show ?thesis
    using bookkeeping_events_keep_queue_state
      [of "Q_SET_VOLUME (1/2)" "1/2" "''b''" 0 0 1
          "Gapless_play 0 (Gapless_new 0 [''a''] False False False False False False)"]
    by simp
qed

subsection \<open>The end of the queue\<close>

lemma PLAY_from_ended:
  "qstate q = QEnded \<Longrightarrow> qstate (queue_transition now Q_PLAY q) = QPlaying"
  "qstate q = QEnded \<Longrightarrow> currentTrackIdx (queue_transition now Q_PLAY q) = 0"
  "qstate q = QEnded \<Longrightarrow> q_mailbox (queue_transition now Q_PLAY q) = q_mailbox q"
  by (simp_all add: queue_transition_def playCurrentTrack_def activateCurrentTrack_def
        resetToFirstTrack_def)

lemma TRACK_ENDED_on_last:
  assumes "qstate q = QPlaying" "isLastTrack q"
  shows "queue_transition now Q_TRACK_ENDED q = (notifyEnded q)\<lparr>qstate := QEnded\<rparr>"
  using assms by (simp add: queue_transition_def)

lemma TRACK_ENDED_while_ended:
  assumes "qstate q = QEnded" and "q_mailbox q = []"
  shows "queue_send now Q_TRACK_ENDED q = q"
  using assms by (simp add: queue_send_def queue_transition_def Let_def)

text \<open>
  What the queue does with the report. It is playing and its current index is the last
  one (the guard \<open>isLastTrack\<close>) when \<open>TRACK_ENDED\<close> arrives: the queue moves to
  ended, calls the \<open>onEnded\<close> callback it was given and sends no event to any track; a
  further \<open>TRACK_ENDED\<close> in the state ended is dropped. A \<open>PLAY\<close> sent next puts the
  current index at 0 and the queue in playing.
\<close>

lemma TRACK_ENDED_on_last_then_PLAY:
  assumes "qstate q = QPlaying" and "isLastTrack q" and "q_mailbox q = []" and "q_onEnded q"
  shows "qstate (queue_send now Q_TRACK_ENDED q) = QEnded
       \<and> q_effects (queue_send now Q_TRACK_ENDED q) = q_effects q @ [CallQueueOnEnded]
       \<and> trackActors (queue_send now Q_TRACK_ENDED q) = trackActors q
       \<and> queue_send now' Q_TRACK_ENDED (queue_send now Q_TRACK_ENDED q) =
           queue_send now Q_TRACK_ENDED q
       \<and> qstate (queue_send now' Q_PLAY (queue_send now Q_TRACK_ENDED q)) = QPlaying
       \<and> currentTrackIdx (queue_send now' Q_PLAY (queue_send now Q_TRACK_ENDED q)) = 0"
proof -
  let ?q1 = "queue_send now Q_TRACK_ENDED q"
  have q1: "?q1 = (notifyEnded q)\<lparr>qstate := QEnded, q_mailbox := []\<rparr>"
    using assms by (simp add: queue_send_def TRACK_ENDED_on_last Let_def)
  have st: "qstate ?q1 = QEnded" and mb: "q_mailbox ?q1 = []"
    by (simp_all add: q1)
  have ef: "q_effects ?q1 = q_effects q @ [CallQueueOnEnded]"
    using assms(4) by (simp add: q1)
  have ta: "trackActors ?q1 = trackActors q"
    by (simp add: q1)
  have "qstate (queue_send now' Q_PLAY ?q1) = QPlaying"
    using st mb by (simp add: queue_send_def Let_def PLAY_from_ended)
  moreover have "currentTrackIdx (queue_send now' Q_PLAY ?q1) = 0"
    using st mb by (simp add: queue_send_def Let_def PLAY_from_ended)
  moreover have "queue_send now' Q_TRACK_ENDED ?q1 = ?q1"
    using st mb by (rule TRACK_ENDED_while_ended)
  ultimately show ?thesis
    using st ef ta by simp
qed

text \<open>
  What the track does besides. A playing track that ends calls, in \<open>handleEnded\<close>, both
  \<open>onTrackEnded\<close> and the \<open>onEnded\<close> it was handed. So when the queue is playing at
  its last index and a track spawned with both callbacks ends, the function \<open>onEnded\<close>
  is called twice: by that track and by the queue.
\<close>

lemma onEnded_called_by_queue_and_track:
  assumes "qstate q = QPlaying" and "isLastTrack q" and "q_mailbox q = []" and "q_onEnded q"
    and "actorAt (trackActors q) e = Some a" and "mailbox a = []"
    and "playback a = Playing" and "onTrackEnded a" and "onEnded a"
  shows "qstate (deliver_ENDED now e q) = QEnded"
    and "onEnded_calls (deliver_ENDED now e q) = onEnded_calls q + 2"
proof -
  let ?a' = "track_send now T_ENDED a"
  define q1 where "q1 = q\<lparr>trackActors := (trackActors q)[nat e := ?a']\<rparr>"
  have e: "nat e < length (trackActors q)" "a = trackActors q ! nat e"
    using assms(5) by (auto simp: actorAt_def split: if_splits)
  have d: "deliver_ENDED now e q = queue_send now Q_TRACK_ENDED q1"
    unfolding q1_def using assms(5-8) by (rule deliver_ENDED_reports)
  have h1: "qstate q1 = QPlaying" "isLastTrack q1" "q_mailbox q1 = []" "q_onEnded q1"
    using assms(1-4) by (simp_all add: q1_def isLastTrack_def)
  have tr: "queue_send now Q_TRACK_ENDED q1 = (notifyEnded q1)\<lparr>qstate := QEnded, q_mailbox := []\<rparr>"
    using h1 by (simp add: queue_send_def TRACK_ENDED_on_last Let_def)
  show "qstate (deliver_ENDED now e q) = QEnded"
    by (simp add: d tr)
  have ef1: "q_effects (queue_send now Q_TRACK_ENDED q1) = q_effects q1 @ [CallQueueOnEnded]"
    and ta1: "trackActors (queue_send now Q_TRACK_ENDED q1) = trackActors q1"
    using h1(4) by (simp_all add: tr)
  have ef: "q_effects (deliver_ENDED now e q) = q_effects q @ [CallQueueOnEnded]"
    unfolding d ef1 by (simp add: q1_def)
  have ta: "trackActors (deliver_ENDED now e q) = (trackActors q)[nat e := ?a']"
    unfolding d ta1 by (simp add: q1_def)
  let ?f = "\<lambda>a. length (filter (\<lambda>e. e = CallOnEnded) (effects a))"
  have fa: "?f ?a' = ?f a + 1"
    using assms(6-9) by (simp add: effects_track_send_ENDED)
  have "sum_list (map ?f ((trackActors q)[nat e := ?a'])) + ?f a =
        sum_list (map ?f (trackActors q)) + ?f ?a'"
    using sum_list_map_update [OF e(1), of ?f ?a'] e(2) by simp
  then have "sum_list (map ?f ((trackActors q)[nat e := ?a'])) =
        sum_list (map ?f (trackActors q)) + 1"
    using fa by simp
  then show "onEnded_calls (deliver_ENDED now e q) = onEnded_calls q + 2"
    by (simp add: onEnded_calls_def ef ta)
qed

text \<open>
  Claim C2. What the code does when the audio of the last track ends, on a queue that was
  given an \<open>onEnded\<close> callback. A queue of one track, playing: the queue moves to ended
  and \<open>notifyEnded\<close> calls the callback once; the \<open>handleEnded\<close> of the track calls
  the same callback as well, so that it has been called twice. A queue of two tracks: the
  callback is called already when the first track ends (by that track, while the queue
  advances to index 1 and stays in playing), and twice more when the second and last
  track ends, three times in all. From the state ended, \<open>play()\<close> puts the current
  index at 0 and the queue in playing, and the track at index 0 plays.
\<close>

theorem last_track_end_calls_onEnded_twice:
  "(let q0 = Gapless_play 1 (Gapless_new 0 [''a''] False False True False False False);
        q1 = deliver_ENDED 2 0 q0
    in qstate q0 = QPlaying \<and> currentTrackIdx q0 = 0 \<and> onEnded_calls q0 = 0
     \<and> qstate q1 = QEnded
     \<and> q_effects q1 = q_effects q0 @ [CallQueueOnEnded]
     \<and> effects (trackActors q1 ! 0) =
         effects (trackActors q0 ! 0) @ [CallOnTrackEnded 0, CallOnEnded]
     \<and> onEnded_calls q1 = 2
     \<and> qstate (Gapless_play 3 q1) = QPlaying
     \<and> currentTrackIdx (Gapless_play 3 q1) = 0
     \<and> map playback (trackActors (Gapless_play 3 q1)) = [Playing])
   \<and>
   (let q0 = Gapless_play 1 (Gapless_new 0 [''a'', ''b''] False False True False False False);
        q1 = deliver_ENDED 2 0 q0;
        q2 = deliver_ENDED 3 1 q1
    in onEnded_calls q0 = 0
     \<and> qstate q1 = QPlaying \<and> currentTrackIdx q1 = 1 \<and> onEnded_calls q1 = 1
     \<and> qstate q2 = QEnded \<and> onEnded_calls q2 = 3)"
  by code_simp

subsection \<open>Auto-advance\<close>





subsection \<open>Goto\<close>

text \<open>
  Claim C1. What the code does with \<open>gotoTrack(i, true)\<close> outside the state playing.
  On a new queue of three tracks, which is paused, \<open>gotoTrack(1, true)\<close> sets the
  current index to 1 and leaves the queue paused, with no track playing. On a queue of
  two tracks that has ended, \<open>gotoTrack(0, true)\<close> sets the current index to 0 and
  moves the queue to paused, although the track at index 0 has been told to play. (By
  \<open>GOTO_transition\<close> the state after a \<open>GOTO\<close> never depends on \<open>playImmediately\<close>.)
\<close>

theorem gotoTrack_true_does_not_start_playing:
  "(let q0 = Gapless_new 0 [''a'', ''b'', ''c''] False False False False False False;
        q = Gapless_gotoTrack 1 1 True q0
    in qstate q0 = QPaused \<and> qstate q = QPaused \<and> currentTrackIdx q = 1
     \<and> map playback (trackActors q) = [Paused, Paused, Paused])
   \<and>
   (let qe = queue_send 3 Q_TRACK_ENDED (queue_send 2 Q_TRACK_ENDED
               (Gapless_play 1 (Gapless_new 0 [''a'', ''b''] False False False False False False)));
        q = Gapless_gotoTrack 4 0 True qe
    in qstate qe = QEnded \<and> qstate q = QPaused \<and> currentTrackIdx q = 0
     \<and> map playback (trackActors q) = [Playing, Paused])"
  by code_simp

subsection \<open>Volume\<close>

text \<open>
  The track machine itself handles \<open>SET_VOLUME\<close> in every state, and applies the
  clamped value to the audio element and to the gain node alike.
\<close>

lemma track_SET_VOLUME:
  assumes "mailbox t = []"
  shows "volume (track_send now (T_SET_VOLUME v) t) = max 0 (min 1 v)"
    and "map_option a_volume (audio (track_send now (T_SET_VOLUME v) t)) =
           map_option (\<lambda>a. max 0 (min 1 v)) (audio t)"
    and "gainNode (track_send now (T_SET_VOLUME v) t) =
           map_option (\<lambda>g. max 0 (min 1 v)) (gainNode t)"
  using assms
  by (simp_all add: track_send_def track_transition_def setVolume_def Let_def
        split: option.splits)

lemma SET_VOLUME_send:
  assumes "q_mailbox q = []"
  shows "Gapless_setVolume now v q = q\<lparr>q_volume := max 0 (min 1 v)\<rparr>"
  using assms by (simp add: Gapless_setVolume_def queue_send_def SET_VOLUME_transition Let_def)

text \<open>
  Claim C5. What the code does with \<open>setVolume(0.5)\<close> on a playing queue of two tracks:
  the queue stores 0.5, sends no event to any track, and every track keeps the volume it
  had: the volume of each track's context, the volume of the audio element of the current
  track and the gain of its gain node all stay at 1. (By \<open>SET_VOLUME_send\<close> the same
  holds in every state of every queue: the only change is the queue's own \<open>volume\<close>.
  A track would apply the value to both of its backends, by \<open>track_SET_VOLUME\<close>, but
  it is never sent the event.)
\<close>

theorem setVolume_reaches_no_track:
  "(let q0 = Gapless_play 1 (Gapless_new 0 [''a'', ''b''] False False False False False False);
        q = Gapless_setVolume 2 (1/2) q0
    in q_volume q = 1/2
     \<and> q_effects q = q_effects q0
     \<and> trackActors q = trackActors q0
     \<and> map volume (trackActors q) = [1, 1]
     \<and> map (map_option a_volume \<circ> audio) (trackActors q) = [Some 1, None]
     \<and> map gainNode (trackActors q) = [Some 1, None])"
  by code_simp

subsection \<open>Removing a track\<close>

lemma findIndex_range:
  "findIndex P xs = -1 \<or> (0 \<le> findIndex P xs \<and> findIndex P xs < int (length xs))"
  by (induction xs) (auto simp: Let_def)

lemma findIndex_none: "findIndex P xs = -1 \<longleftrightarrow> (\<forall>x\<in>set xs. \<not> P x)"
proof (induction xs)
  case Nil
  show ?case by simp
next
  case (Cons x xs)
  have "0 \<le> findIndex P xs \<or> findIndex P xs = -1"
    using findIndex_range [of P xs] by auto
  with Cons show ?case by (auto simp: Let_def)
qed

lemma findIndex_found:
  "findIndex P xs \<noteq> -1 \<Longrightarrow>
     P (xs ! nat (findIndex P xs)) \<and> (\<forall>j < nat (findIndex P xs). \<not> P (xs ! j))"
proof (induction xs)
  case Nil
  then show ?case by simp
next
  case (Cons x xs)
  show ?case
  proof (cases "P x")
    case True
    then show ?thesis by simp
  next
    case False
    with Cons.prems have ne: "findIndex P xs \<noteq> -1"
      by (auto simp: Let_def)
    then have ge: "0 \<le> findIndex P xs"
      using findIndex_range [of P xs] by auto
    have eq: "findIndex P (x # xs) = findIndex P xs + 1"
      using False ne by (simp add: Let_def)
    have n: "nat (findIndex P xs + 1) = Suc (nat (findIndex P xs))"
      using ge by simp
    show ?thesis
      unfolding eq n using Cons.IH [OF ne] False by (auto simp: less_Suc_eq_0_disj)
  qed
qed

text \<open>The new index \<open>removeTrack\<close> computes, over the integers.\<close>

lemma clamped_index_bounds:
  fixes c n :: int
  assumes "0 \<le> c" and "c < n + 1"
  shows "0 \<le> (if c \<ge> n \<and> c > 0 then n - 1 else c)"
    and "0 < n \<longrightarrow> (if c \<ge> n \<and> c > 0 then n - 1 else c) < n"
  using assms by auto

text \<open>
  Claim C6, as amended. \<open>removeTrack\<close> looks for the first actor whose reference is
  the one in the event. If there is none, nothing changes. Otherwise that actor, and only
  it, is cut out of the list; the current index changes only when it would fall outside
  the remaining list (it is at least the new length, and above 0), and then becomes the
  last remaining index; when the removed actor is behind the current one, the index keeps
  pointing at the same actor. A current index that was inside the list is never
  negative afterwards, and is inside the remaining list whenever that is not empty.
\<close>

theorem removeTrack_keeps_index_in_range:
  assumes "0 \<le> currentTrackIdx q" and "currentTrackIdx q < int (length (trackActors q))"
  shows "(let index = findIndex (\<lambda>actor. ref actor = r) (trackActors q);
              q' = removeTrack (Q_REMOVE_TRACK r) q
          in (index = -1 \<longrightarrow> q' = q)
           \<and> (index \<noteq> -1 \<longrightarrow>
                 0 \<le> index \<and> index < int (length (trackActors q))
               \<and> ref (trackActors q ! nat index) = r
               \<and> (\<forall>j < nat index. ref (trackActors q ! j) \<noteq> r)
               \<and> trackActors q' =
                   take (nat index) (trackActors q) @ drop (nat index + 1) (trackActors q)
               \<and> int (length (trackActors q')) = int (length (trackActors q)) - 1
               \<and> currentTrackIdx q' =
                   (if currentTrackIdx q \<ge> int (length (trackActors q')) \<and> currentTrackIdx q > 0
                    then int (length (trackActors q')) - 1 else currentTrackIdx q)
               \<and> (currentTrackIdx q < index \<longrightarrow>
                    currentTrackIdx q' = currentTrackIdx q
                  \<and> trackActors q' ! nat (currentTrackIdx q') =
                      trackActors q ! nat (currentTrackIdx q)))
           \<and> 0 \<le> currentTrackIdx q'
           \<and> (trackActors q' \<noteq> [] \<longrightarrow> currentTrackIdx q' < int (length (trackActors q'))))"
proof -
  let ?A = "trackActors q"
  let ?i = "findIndex (\<lambda>actor. ref actor = r) ?A"
  let ?q' = "removeTrack (Q_REMOVE_TRACK r) q"
  show ?thesis
  proof (cases "?i = -1")
    case True
    then have "?q' = q" by (simp add: removeTrack_def)
    with True assms show ?thesis by (simp add: Let_def)
  next
    case False
    then have rng: "0 \<le> ?i" "?i < int (length ?A)"
      using findIndex_range [of "\<lambda>actor. ref actor = r" ?A] by auto
    have fnd: "ref (?A ! nat ?i) = r" "\<forall>j < nat ?i. ref (?A ! j) \<noteq> r"
      using findIndex_found [OF False] by auto
    have ta: "trackActors ?q' = take (nat ?i) ?A @ drop (nat ?i + 1) ?A"
      using False by (simp add: removeTrack_def splice1_def Let_def)
    have len: "int (length (trackActors ?q')) = int (length ?A) - 1"
      using rng by (simp add: ta)
    have idx0: "currentTrackIdx ?q' =
        (if currentTrackIdx q \<ge> int (length ?A) - 1 \<and> currentTrackIdx q > 0
         then int (length ?A) - 1 - 1 else currentTrackIdx q)"
      using False by (simp add: removeTrack_def Let_def)
    have idx: "currentTrackIdx ?q' =
        (if currentTrackIdx q \<ge> int (length (trackActors ?q')) \<and> currentTrackIdx q > 0
         then int (length (trackActors ?q')) - 1 else currentTrackIdx q)"
      unfolding len using idx0 by simp
    have stable: "currentTrackIdx q < ?i \<longrightarrow>
        currentTrackIdx ?q' = currentTrackIdx q
      \<and> trackActors ?q' ! nat (currentTrackIdx ?q') = ?A ! nat (currentTrackIdx q)"
    proof
      assume lt: "currentTrackIdx q < ?i"
      then have keep: "currentTrackIdx ?q' = currentTrackIdx q"
        using rng len by (simp add: idx)
      have "nat (currentTrackIdx q) < nat ?i"
        using lt assms(1) by simp
      then have "trackActors ?q' ! nat (currentTrackIdx q) = ?A ! nat (currentTrackIdx q)"
        using rng by (simp add: ta nth_append)
      with keep show "currentTrackIdx ?q' = currentTrackIdx q
        \<and> trackActors ?q' ! nat (currentTrackIdx ?q') = ?A ! nat (currentTrackIdx q)"
        by simp
    qed
    define n' where "n' = int (length (trackActors ?q'))"
    have n'1: "n' = int (length ?A) - 1"
      unfolding n'_def by (rule len)
    have cb: "0 \<le> currentTrackIdx q" "currentTrackIdx q < n' + 1"
      using assms by (simp_all add: n'1)
    have idx': "currentTrackIdx ?q' =
        (if currentTrackIdx q \<ge> n' \<and> currentTrackIdx q > 0 then n' - 1 else currentTrackIdx q)"
      using idx by (simp add: n'_def)
    have lo: "0 \<le> currentTrackIdx ?q'"
      unfolding idx' by (rule clamped_index_bounds(1) [OF cb])
    have "0 < n' \<longrightarrow> currentTrackIdx ?q' < n'"
      unfolding idx' by (rule clamped_index_bounds(2) [OF cb])
    then have hi: "trackActors ?q' \<noteq> [] \<longrightarrow> currentTrackIdx ?q' < int (length (trackActors ?q'))"
      by (simp add: n'_def)
    show ?thesis
      unfolding Let_def using False rng fnd ta len idx stable lo hi by blast
  qed
qed


text \<open>
  Claim C6 as stated fails: with four tracks and the current index 1, removing the track
  at index 0 leaves the current index at 1, which then names the track that was at index
  2, not the one that was current.
\<close>

theorem removeTrack_before_current_counterexample:
  "currentTrackIdx
     (Gapless_gotoTrack 1 1 False
        (Gapless_new 0 [''a'', ''b'', ''c'', ''d''] False False False False False False)) = 1
   \<and> map ref (trackActors
        (Gapless_gotoTrack 1 1 False
           (Gapless_new 0 [''a'', ''b'', ''c'', ''d''] False False False False False False)))
       = [0, 1, 2, 3]
   \<and> map ref (trackActors
        (Gapless_removeTrack 2 0 (Gapless_gotoTrack 1 1 False
           (Gapless_new 0 [''a'', ''b'', ''c'', ''d''] False False False False False False))))
       = [1, 2, 3]
   \<and> currentTrackIdx
        (Gapless_removeTrack 2 0 (Gapless_gotoTrack 1 1 False
           (Gapless_new 0 [''a'', ''b'', ''c'', ''d''] False False False False False False)))
       = 1
   \<and> map_option ref (actorAt
        (trackActors (Gapless_gotoTrack 1 1 False
           (Gapless_new 0 [''a'', ''b'', ''c'', ''d''] False False False False False False))) 1)
       = Some 1
   \<and> map_option ref (actorAt
        (trackActors (Gapless_removeTrack 2 0 (Gapless_gotoTrack 1 1 False
           (Gapless_new 0 [''a'', ''b'', ''c'', ''d''] False False False False False False)))) 1)
       = Some 2"
  by code_simp

text \<open>Three tracks, the last one current, the first one removed.\<close>

theorem removeTrack_keeps_index_in_range_witness:
  "(let q = Gapless_gotoTrack 1 2 False
              (Gapless_new 0 [''a'', ''b'', ''c''] False False False False False False);
        q' = removeTrack (Q_REMOVE_TRACK 0) q
    in 0 \<le> currentTrackIdx q \<and> currentTrackIdx q < int (length (trackActors q))
     \<and> currentTrackIdx q = 2
     \<and> findIndex (\<lambda>actor. ref actor = 0) (trackActors q) = 0
     \<and> currentTrackIdx q' = 1
     \<and> currentTrackIdx q' < int (length (trackActors q')))"
proof -
  let ?q = "Gapless_gotoTrack 1 2 False
              (Gapless_new 0 [''a'', ''b'', ''c''] False False False False False False)"
  have h: "0 \<le> currentTrackIdx ?q" "currentTrackIdx ?q < int (length (trackActors ?q))"
    by code_simp+
  have c: "currentTrackIdx ?q = 2" "length (trackActors ?q) = 3"
    "findIndex (\<lambda>actor. ref actor = 0) (trackActors ?q) = 0"
    by code_simp+
  show ?thesis
    using removeTrack_keeps_index_in_range [OF h, of 0] h c by (simp add: Let_def)
qed

subsection \<open>Previous\<close>

lemma effects_sendTo_ex: "\<exists>es. q_effects (sendTo now i ev q) = q_effects q @ es"
  by (simp add: q_effects_sendTo)














end
